theory Spec2Isabelle
  imports Complex_Main
begin

section \<open>Arrays, errors and Python primitives\<close>

text \<open>
  The exceptions that the modelled functions of \<^verbatim>\<open>core.py\<close> can raise are the first
  four constructors. \<open>DataError\<close>, \<open>DimensionMismatchError\<close> and \<open>ConfigError\<close> are the
  error kinds the specification names; no statement of \<^verbatim>\<open>core.py\<close> raises them, so no
  definition below ever returns them.
\<close>

datatype error =
    ValueError
  | IndexError
  | AxisError
  | UnboundLocalError
  | DataError
  | DimensionMismatchError
  | ConfigError

text \<open>
  A numpy array is the nested list of its entries, outermost axis first. The dtype is not
  part of the model: an entry is the number it holds. An array with an axis of length 0
  keeps only the axes before it, so \<open>shape3\<close> reads the later axes as 0.
\<close>

type_synonym 'a arr2 = "'a list list"
type_synonym 'a arr3 = "'a list list list"

definition shape3 :: "'a arr3 \<Rightarrow> nat \<times> nat \<times> nat" where
  "shape3 v =
     (length v,
      (case v of [] \<Rightarrow> 0 | p # _ \<Rightarrow> length p),
      (case v of [] \<Rightarrow> 0 | p # _ \<Rightarrow> (case p of [] \<Rightarrow> 0 | r # _ \<Rightarrow> length r)))"

text \<open>\<open>has_shape a b c v\<close>: \<open>v\<close> is a rectangular array of shape \<open>(a, b, c)\<close>.\<close>

definition has_shape :: "nat \<Rightarrow> nat \<Rightarrow> nat \<Rightarrow> 'a arr3 \<Rightarrow> bool" where
  "has_shape a b c v \<longleftrightarrow>
     length v = a \<and> (\<forall>p \<in> set v. length p = b \<and> (\<forall>r \<in> set p. length r = c))"

definition is_cube :: "nat \<Rightarrow> 'a arr3 \<Rightarrow> bool" where
  "is_cube n v \<longleftrightarrow> has_shape n n n v"

definition map3 :: "('a \<Rightarrow> 'b) \<Rightarrow> 'a arr3 \<Rightarrow> 'b arr3" where
  "map3 f v = map (map (map f)) v"

text \<open>Sequencing of fallible steps: the first exception ends the computation.\<close>

definition ebind :: "error + 'a \<Rightarrow> ('a \<Rightarrow> error + 'b) \<Rightarrow> error + 'b" where
  "ebind m f = (case m of Inl e \<Rightarrow> Inl e | Inr x \<Rightarrow> f x)"

text \<open>A list comprehension whose body can raise: elements are evaluated left to right.\<close>

fun emap :: "('a \<Rightarrow> error + 'b) \<Rightarrow> 'a list \<Rightarrow> error + 'b list" where
  "emap f [] = Inr []"
| "emap f (x # xs) =
     (case f x of
        Inl e \<Rightarrow> Inl e
      | Inr y \<Rightarrow> (case emap f xs of Inl e \<Rightarrow> Inl e | Inr ys \<Rightarrow> Inr (y # ys)))"

text \<open>
  \<^verbatim>\<open>range(start, stop, step)\<close> for a non-negative start and stride. Python raises
  ValueError for a stride of 0.
\<close>

function range_from :: "nat \<Rightarrow> nat \<Rightarrow> nat \<Rightarrow> nat list" where
  "range_from i stop step =
     (if 0 < step \<and> i < stop then i # range_from (i + step) stop step else [])"
  by pat_completeness auto
termination
  by (relation "measure (\<lambda>(i, stop, step). stop - i)") auto

declare range_from.simps [simp del]

definition py_range :: "nat \<Rightarrow> nat \<Rightarrow> nat \<Rightarrow> error + nat list" where
  "py_range start stop step =
     (if step = 0 then Inl ValueError else Inr (range_from start stop step))"

section \<open>The mosaic compositor, normal variant\<close>

text \<open>\<^verbatim>\<open>out_img[i, :, :]\<close>, \<^verbatim>\<open>out_img[:, j, :]\<close> and \<^verbatim>\<open>out_img[:, :, k]\<close>; an index beyond
  the axis raises IndexError.\<close>

definition take_axis0 :: "'a arr3 \<Rightarrow> nat \<Rightarrow> error + 'a arr2" where
  "take_axis0 v i =
     (case shape3 v of (a, b, c) \<Rightarrow> if i < a then Inr (v ! i) else Inl IndexError)"

definition take_axis1 :: "'a arr3 \<Rightarrow> nat \<Rightarrow> error + 'a arr2" where
  "take_axis1 v j =
     (case shape3 v of (a, b, c) \<Rightarrow>
        if j < b then Inr (map (\<lambda>p. p ! j) v) else Inl IndexError)"

definition take_axis2 :: "'a arr3 \<Rightarrow> nat \<Rightarrow> error + 'a arr2" where
  "take_axis2 v k =
     (case shape3 v of (a, b, c) \<Rightarrow>
        if k < c then Inr (map (map (\<lambda>r. r ! k)) v) else Inl IndexError)"

text \<open>\<^verbatim>\<open>np.flip(m, 1)\<close> reverses every row.\<close>

definition np_flip1 :: "'a arr2 \<Rightarrow> 'a arr2" where
  "np_flip1 m = map rev m"

text \<open>\<^verbatim>\<open>m.T\<close> for a matrix with \<open>ncols\<close> columns: row \<open>j\<close> of the result is column \<open>j\<close> of \<open>m\<close>.\<close>

definition np_T :: "nat \<Rightarrow> 'a arr2 \<Rightarrow> 'a arr2" where
  "np_T ncols m = map (\<lambda>j. map (\<lambda>r. r ! j) m) [0..<ncols]"

text \<open>\<^verbatim>\<open>np.hstack((p, q))\<close> of two matrices joins them row by row; numpy raises ValueError
  when the row counts differ.\<close>

definition np_hstack :: "'a arr2 \<Rightarrow> 'a arr2 \<Rightarrow> error + 'a arr2" where
  "np_hstack p q =
     (if length p = length q then Inr (map (\<lambda>(x, y). x @ y) (zip p q)) else Inl ValueError)"

text \<open>
  One element of the comprehension in \<^verbatim>\<open>create_mosaic_normal\<close>, for the loop index \<open>i\<close>.
  The loop index is below \<open>maximum\<close>, so \<^verbatim>\<open>maximum - i - 1\<close> is never negative. The slice
  of axis 0 has shape \<open>(b, c)\<close>, that of axis 1 \<open>(a, c)\<close>, that of axis 2 \<open>(a, b)\<close>.
\<close>

definition mosaic_frame :: "'a arr3 \<Rightarrow> nat \<Rightarrow> nat \<Rightarrow> error + 'a arr2" where
  "mosaic_frame out_img maximum i =
     (case shape3 out_img of (a, b, c) \<Rightarrow>
        ebind (take_axis0 out_img i) (\<lambda>s0.
        ebind (take_axis1 out_img (maximum - i - 1)) (\<lambda>s1.
        ebind (np_hstack (np_T c (np_flip1 s0)) (np_T c (np_flip1 s1))) (\<lambda>h.
        ebind (take_axis2 out_img (maximum - i - 1)) (\<lambda>s2.
        np_hstack h (np_T b (np_flip1 s2)))))))"

definition create_mosaic_normal :: "'a arr3 \<Rightarrow> nat \<Rightarrow> nat \<Rightarrow> error + 'a arr2 list" where
  "create_mosaic_normal out_img maximum frameskip =
     ebind (py_range 0 maximum frameskip) (emap (mosaic_frame out_img maximum))"

section \<open>Floating-point values\<close>

text \<open>
  numpy computes on float arrays and float scalars by IEEE 754: a division by zero and a
  product of zero and an infinity give an infinity or NaN together with a RuntimeWarning,
  and raise nothing. A finite value is modelled by the rational it denotes: rounding and
  the sign of zero are not modelled.
\<close>

datatype npfloat = Fin rat | PInf | NInf | NaN

text \<open>\<^verbatim>\<open>x / y\<close> for two finite numpy floats.\<close>

definition np_true_divide :: "rat \<Rightarrow> rat \<Rightarrow> npfloat" where
  "np_true_divide x y =
     (if y \<noteq> 0 then Fin (x / y)
      else if 0 < x then PInf else if x < 0 then NInf else NaN)"

text \<open>\<^verbatim>\<open>v * s\<close> for a finite \<open>v\<close>.\<close>

definition np_multiply :: "rat \<Rightarrow> npfloat \<Rightarrow> npfloat" where
  "np_multiply v s =
     (case s of
        Fin q \<Rightarrow> Fin (v * q)
      | PInf \<Rightarrow> (if 0 < v then PInf else if v < 0 then NInf else NaN)
      | NInf \<Rightarrow> (if 0 < v then NInf else if v < 0 then PInf else NaN)
      | NaN \<Rightarrow> NaN)"

text \<open>Python's \<^verbatim>\<open>int(x)\<close> on a finite float truncates toward zero.\<close>

definition py_int :: "rat \<Rightarrow> int" where
  "py_int q = (if 0 \<le> q then \<lfloor>q\<rfloor> else \<lceil>q\<rceil>)"

text \<open>
  \<^verbatim>\<open>astype(np.uint8)\<close> is the C conversion of a float to an 8-bit unsigned integer: a value
  whose truncation lies in \<open>0..255\<close> is truncated toward zero. For every other value (out
  of range, infinite or NaN) C leaves the result to the platform; the parameter \<open>und\<close> is
  what the platform gives there.
\<close>

definition astype_uint8 :: "(npfloat \<Rightarrow> npfloat) \<Rightarrow> npfloat \<Rightarrow> npfloat" where
  "astype_uint8 und x =
     (case x of
        Fin q \<Rightarrow> if - 1 < q \<and> q < 256 then Fin (of_int (py_int q)) else und x
      | _ \<Rightarrow> und x)"

section \<open>The normalizers\<close>

definition np_zeros3 :: "nat \<Rightarrow> rat arr3" where
  "np_zeros3 n = replicate n (replicate n (replicate n 0))"

text \<open>\<^verbatim>\<open>out_img.max()\<close>; numpy raises ValueError on an array without entries.\<close>

definition np_max :: "rat arr3 \<Rightarrow> error + rat" where
  "np_max v = (case concat (concat v) of [] \<Rightarrow> Inl ValueError | x # xs \<Rightarrow> Inr (fold max xs x))"

text \<open>
  The number of indices a slice \<^verbatim>\<open>s:e\<close> with \<open>0 \<le> s\<close> and \<open>0 \<le> e\<close> selects on an axis of
  length \<open>n\<close>: Python clips both bounds to the axis.
\<close>

definition slice_extent :: "nat \<Rightarrow> nat \<Rightarrow> nat \<Rightarrow> nat" where
  "slice_extent n s e = min e n - min s n"

text \<open>Overwriting the entries of \<open>out\<close> from position \<open>s\<close> on with those of \<open>src\<close>, each
  combined by \<open>f\<close> (which descends into the next axis).\<close>

definition assign1 :: "nat \<Rightarrow> ('a \<Rightarrow> 'b \<Rightarrow> 'a) \<Rightarrow> 'a list \<Rightarrow> 'b list \<Rightarrow> 'a list" where
  "assign1 s f out src =
     take s out @ map (\<lambda>(x, y). f x y) (zip (drop s out) src) @ drop (s + length src) out"

text \<open>
  \<^verbatim>\<open>out[sx:ex, sy:ey, sz:ez] = data\<close>. numpy raises ValueError when the selected block
  and \<open>data\<close> differ in shape (broadcasting an axis of length 1 over a longer slice is not
  modelled).
\<close>

definition assign_slice3 ::
  "rat arr3 \<Rightarrow> nat \<Rightarrow> nat \<Rightarrow> nat \<Rightarrow> nat \<Rightarrow> nat \<Rightarrow> nat \<Rightarrow> rat arr3 \<Rightarrow> error + rat arr3" where
  "assign_slice3 out sx ex sy ey sz ez data =
     (case shape3 out of (n0, n1, n2) \<Rightarrow>
      case shape3 data of (a, b, c) \<Rightarrow>
        if slice_extent n0 sx ex = a \<and> slice_extent n1 sy ey = b \<and> slice_extent n2 sz ez = c
        then Inr (assign1 sx (assign1 sy (assign1 sz (\<lambda>x y. y))) out data)
        else Inl ValueError)"

text \<open>
  The start offset of the legacy normalizer on an axis of length \<open>d\<close>, lines 65 to 69 of
  \<^verbatim>\<open>core.py\<close>: \<^verbatim>\<open>int((d - maximum) / -2)\<close>, a float division followed by truncation. The
  quotient of an integer by 2 is exact in binary floating point, so it is the rational.
\<close>

definition legacy_start :: "nat \<Rightarrow> nat \<Rightarrow> int" where
  "legacy_start maximum d = py_int ((of_nat d - of_nat maximum) / (- 2))"

text \<open>The start offset of the isotropic normalizer, line 100: \<^verbatim>\<open>(maximum - d) // 2\<close>, the
  floor division of integers.\<close>

definition iso_start :: "nat \<Rightarrow> nat \<Rightarrow> int" where
  "iso_start maximum d = (int maximum - int d) div 2"

text \<open>Lines 60 to 69 of \<^verbatim>\<open>load_and_prepare_image\<close>: the zero cube with the data copied in.\<close>

definition pad_cube_legacy :: "rat arr3 \<Rightarrow> error + rat arr3" where
  "pad_cube_legacy data =
     (case shape3 data of (a, b, c) \<Rightarrow>
        let maximum = max a (max b c);
            x = nat (legacy_start maximum a);
            y = nat (legacy_start maximum b);
            z = nat (legacy_start maximum c)
        in assign_slice3 (np_zeros3 maximum) x (a + x) y (b + y) z (c + z) data)"

text \<open>Lines 97 to 103 of \<^verbatim>\<open>load_and_prepare_image_isotropic\<close>.\<close>

definition pad_cube_isotropic :: "rat arr3 \<Rightarrow> error + rat arr3" where
  "pad_cube_isotropic data_iso =
     (case shape3 data_iso of (a, b, c) \<Rightarrow>
        let maximum = max a (max b c);
            sx = nat (iso_start maximum a);
            sy = nat (iso_start maximum b);
            sz = nat (iso_start maximum c)
        in assign_slice3 (np_zeros3 maximum) sx (sx + a) sy (sy + b) sz (sz + c) data_iso)"

text \<open>\<^verbatim>\<open>out_img *= 255 / out_img.max()\<close> followed by \<^verbatim>\<open>astype(np.uint8)\<close>.\<close>

definition scale_to_uint8 :: "(npfloat \<Rightarrow> npfloat) \<Rightarrow> rat arr3 \<Rightarrow> error + npfloat arr3" where
  "scale_to_uint8 und out_img =
     ebind (np_max out_img) (\<lambda>m.
       Inr (map3 (\<lambda>v. astype_uint8 und (np_multiply v (np_true_divide 255 m))) out_img))"

text \<open>
  \<^verbatim>\<open>load_and_prepare_image\<close> from the array \<open>data\<close> that \<^verbatim>\<open>nb.load(filename).get_fdata()\<close>
  returns. \<open>resize\<close> stands for \<^verbatim>\<open>skimage.transform.resize\<close> to a cube of the given side;
  a negative side is refused with ValueError before any array is built. The returned
  maximum is never negative, so it is a \<open>nat\<close>. The size factor is a rational and its
  products are exact; \<^verbatim>\<open>size * maximum\<close> and \<^verbatim>\<open>maximum * size\<close> are the same float.
\<close>

definition load_and_prepare_image ::
  "(npfloat \<Rightarrow> npfloat) \<Rightarrow> (npfloat arr3 \<Rightarrow> nat \<Rightarrow> error + npfloat arr3)
     \<Rightarrow> rat arr3 \<Rightarrow> rat \<Rightarrow> error + npfloat arr3 \<times> nat" where
  "load_and_prepare_image und resize data size_factor =
     (case shape3 data of (a, b, c) \<Rightarrow>
        let maximum = max a (max b c) in
        ebind (pad_cube_legacy data) (\<lambda>out_img.
        ebind (scale_to_uint8 und out_img) (\<lambda>out_img.
        ebind (if size_factor \<noteq> 1
               then (if py_int (size_factor * of_nat maximum) < 0 then Inl ValueError
                     else resize out_img (nat (py_int (size_factor * of_nat maximum))))
               else Inr out_img) (\<lambda>out_img.
        Inr (out_img, nat (py_int (of_nat maximum * size_factor)))))))"

text \<open>
  \<^verbatim>\<open>load_and_prepare_image_isotropic\<close> from \<open>data_iso\<close>, the volume after loading,
  reorientation and resampling (lines 83 to 94, done by nibabel and scipy).
\<close>

definition load_and_prepare_image_isotropic ::
  "(npfloat \<Rightarrow> npfloat) \<Rightarrow> (npfloat arr3 \<Rightarrow> nat \<Rightarrow> error + npfloat arr3)
     \<Rightarrow> rat arr3 \<Rightarrow> rat \<Rightarrow> error + npfloat arr3 \<times> nat" where
  "load_and_prepare_image_isotropic und resize data_iso size_factor =
     (case shape3 data_iso of (a, b, c) \<Rightarrow>
        let maximum = max a (max b c) in
        ebind (pad_cube_isotropic data_iso) (\<lambda>out_img.
        ebind (scale_to_uint8 und out_img) (\<lambda>out_img.
        if size_factor \<noteq> 1
        then (if py_int (size_factor * of_nat maximum) < 0 then Inl ValueError
              else ebind (resize out_img (nat (py_int (size_factor * of_nat maximum)))) (\<lambda>r.
                   let out_img = map3 (astype_uint8 und) r in Inr (out_img, length out_img)))
        else Inr (out_img, maximum))))"

section \<open>The mosaic compositor, depth and RGB variants\<close>

text \<open>\<^verbatim>\<open>xs[i]\<close> for \<open>0 \<le> i\<close>.\<close>

definition py_get :: "'a list \<Rightarrow> nat \<Rightarrow> error + 'a" where
  "py_get xs i = (if i < length xs then Inr (xs ! i) else Inl IndexError)"

definition frame_shape :: "'a arr2 \<Rightarrow> nat \<times> nat" where
  "frame_shape f = (length f, (case f of [] \<Rightarrow> 0 | r # _ \<Rightarrow> length r))"

text \<open>
  \<^verbatim>\<open>np.rollaxis(np.array(rgb_img), 1, 4)\<close> on one element of \<open>rgb_img\<close>, a group of frames of
  shape \<open>(h, w)\<close>: the frames become the last axis, the channels of each pixel.
\<close>

definition stack_channels :: "nat \<Rightarrow> nat \<Rightarrow> 'a arr2 list \<Rightarrow> 'a arr3" where
  "stack_channels h w g = map (\<lambda>r. map (\<lambda>c. map (\<lambda>f. f ! r ! c) g) [0..<w]) [0..<h]"

text \<open>
  \<^verbatim>\<open>np.array(rgb_img)\<close> and \<^verbatim>\<open>np.rollaxis(\<dots>, 1, 4)\<close> for a list of groups of frames. An empty
  list gives a one-dimensional array, on which \<^verbatim>\<open>rollaxis\<close> raises AxisError. Groups that
  differ in length or in frame shape do not form a rectangular array: numpy raises
  ValueError (releases before 1.24 build an array of objects instead, on which
  \<^verbatim>\<open>rollaxis\<close> raises). A first group without frames is a slice of an empty mosaic, which
  is one-dimensional: the array has two axes and \<^verbatim>\<open>rollaxis\<close> raises AxisError.
\<close>

definition roll_groups :: "'a arr2 list list \<Rightarrow> error + 'a arr3 list" where
  "roll_groups rgb_img =
     (case rgb_img of
        [] \<Rightarrow> Inl AxisError
      | g # _ \<Rightarrow>
          (case g of
             [] \<Rightarrow> Inl AxisError
           | f # _ \<Rightarrow>
               if (\<forall>g' \<in> set rgb_img. length g' = length g
                     \<and> (\<forall>f' \<in> set g'. frame_shape f' = frame_shape f
                           \<and> (\<forall>r \<in> set f'. length r = snd (frame_shape f))))
               then Inr (map (stack_channels (fst (frame_shape f)) (snd (frame_shape f))) rgb_img)
               else Inl ValueError))"

text \<open>\<^verbatim>\<open>np.zeros([3] + [o for o in out_img[-1].shape])\<close> for a non-empty \<open>out_img\<close>.\<close>

definition zero_frames :: "npfloat arr3 list \<Rightarrow> npfloat arr3 list" where
  "zero_frames out_img =
     (case shape3 (last out_img) of (h, w, l) \<Rightarrow>
        replicate 3 (replicate h (replicate w (replicate l (Fin 0)))))"

text \<open>
  \<^verbatim>\<open>create_mosaic_depth\<close>. \<^verbatim>\<open>range(maximum - 3)\<close> is empty when \<open>maximum < 3\<close>, as is
  \<open>[0..<maximum - 3]\<close>. \<^verbatim>\<open>new_img[i:i + 3, ...]\<close> holds the frames \<open>i\<close>, \<open>i + 1\<close>, \<open>i + 2\<close> that
  exist.
\<close>

definition create_mosaic_depth ::
  "(npfloat \<Rightarrow> npfloat) \<Rightarrow> npfloat arr3 \<Rightarrow> nat \<Rightarrow> nat \<Rightarrow> error + npfloat arr3 list" where
  "create_mosaic_depth und out_img maximum frameskip =
     ebind (create_mosaic_normal out_img maximum frameskip) (\<lambda>new_img.
       let rgb_img = map (\<lambda>i. take 3 (drop i new_img)) [0..<maximum - 3] in
       ebind (roll_groups rgb_img) (\<lambda>out_img.
         Inr (map (map3 (astype_uint8 und)) (out_img @ zero_frames out_img))))"

text \<open>Lines 192 to 202 of \<^verbatim>\<open>create_mosaic_RGB\<close>: the three-channel frame of every index
  below \<open>maximum\<close>.\<close>

definition rgb_combined ::
  "npfloat arr3 \<Rightarrow> npfloat arr3 \<Rightarrow> npfloat arr3 \<Rightarrow> nat \<Rightarrow> nat \<Rightarrow> error + npfloat arr3 list" where
  "rgb_combined out_img1 out_img2 out_img3 maximum frameskip =
     ebind (create_mosaic_normal out_img1 maximum frameskip) (\<lambda>new_img1.
     ebind (create_mosaic_normal out_img2 maximum frameskip) (\<lambda>new_img2.
     ebind (create_mosaic_normal out_img3 maximum frameskip) (\<lambda>new_img3.
     ebind (emap (\<lambda>i. ebind (py_get new_img1 i) (\<lambda>f1.
                       ebind (py_get new_img2 i) (\<lambda>f2.
                       ebind (py_get new_img3 i) (\<lambda>f3. Inr [f1, f2, f3]))))
              [0..<maximum]) roll_groups)))"

definition create_mosaic_RGB ::
  "npfloat arr3 \<Rightarrow> npfloat arr3 \<Rightarrow> npfloat arr3 \<Rightarrow> nat \<Rightarrow> nat \<Rightarrow> error + npfloat arr3 list" where
  "create_mosaic_RGB out_img1 out_img2 out_img3 maximum frameskip =
     ebind (rgb_combined out_img1 out_img2 out_img3 maximum frameskip) (\<lambda>out_img.
       Inr (out_img @ zero_frames out_img))"

section \<open>The conversions\<close>

text \<open>
  \<^verbatim>\<open>write_gif_normal\<close> and \<^verbatim>\<open>write_gif_depth\<close> up to the frames they hand to the encoder,
  from the arrays that the loader's first lines produce.
\<close>

definition write_gif_normal ::
  "(npfloat \<Rightarrow> npfloat) \<Rightarrow> (npfloat arr3 \<Rightarrow> nat \<Rightarrow> error + npfloat arr3)
     \<Rightarrow> rat arr3 \<Rightarrow> rat \<Rightarrow> nat \<Rightarrow> error + npfloat arr2 list" where
  "write_gif_normal und resize data_iso size_factor frameskip =
     ebind (load_and_prepare_image_isotropic und resize data_iso size_factor)
       (\<lambda>(out_img, maximum). create_mosaic_normal out_img maximum frameskip)"

definition write_gif_depth ::
  "(npfloat \<Rightarrow> npfloat) \<Rightarrow> (npfloat arr3 \<Rightarrow> nat \<Rightarrow> error + npfloat arr3)
     \<Rightarrow> rat arr3 \<Rightarrow> rat \<Rightarrow> nat \<Rightarrow> error + npfloat arr3 list" where
  "write_gif_depth und resize data size_factor frameskip =
     ebind (load_and_prepare_image und resize data size_factor)
       (\<lambda>(out_img, maximum). create_mosaic_depth und out_img maximum frameskip)"

text \<open>
  \<^verbatim>\<open>write_gif_rgb\<close> up to the frames it hands to the encoder. \<^verbatim>\<open>maximum\<close> is bound only
  inside the \<^verbatim>\<open>if\<close> of line 298; when the three sides differ, reading it on line 302
  raises UnboundLocalError.
\<close>

definition write_gif_rgb ::
  "(npfloat \<Rightarrow> npfloat) \<Rightarrow> (npfloat arr3 \<Rightarrow> nat \<Rightarrow> error + npfloat arr3)
     \<Rightarrow> rat arr3 \<Rightarrow> rat arr3 \<Rightarrow> rat arr3 \<Rightarrow> rat \<Rightarrow> nat \<Rightarrow> error + npfloat arr3 list" where
  "write_gif_rgb und resize data1 data2 data3 size_factor frameskip =
     ebind (load_and_prepare_image und resize data1 size_factor) (\<lambda>(out_img1, maximum1).
     ebind (load_and_prepare_image und resize data2 size_factor) (\<lambda>(out_img2, maximum2).
     ebind (load_and_prepare_image und resize data3 size_factor) (\<lambda>(out_img3, maximum3).
       if maximum1 = maximum2 \<and> maximum1 = maximum3
       then create_mosaic_RGB out_img1 out_img2 out_img3 maximum1 frameskip
       else Inl UnboundLocalError)))"

text \<open>
  matplotlib's \<^verbatim>\<open>get_cmap\<close> over its table of registered colormaps, the parameter
  \<open>registry\<close>: a name that is not registered raises ValueError. A colormap sends a pixel
  to its RGBA channels.
\<close>

definition get_cmap ::
  "(string \<rightharpoonup> (npfloat \<Rightarrow> npfloat list)) \<Rightarrow> string \<Rightarrow> error + (npfloat \<Rightarrow> npfloat list)" where
  "get_cmap registry name =
     (case registry name of None \<Rightarrow> Inl ValueError | Some cmap \<Rightarrow> Inr cmap)"

text \<open>\<^verbatim>\<open>np.delete(\<dots>, 3, 3)\<close> on the channels of one pixel, and \<^verbatim>\<open>255 * ch\<close>.\<close>

definition drop_alpha :: "npfloat list \<Rightarrow> error + npfloat list" where
  "drop_alpha rgba = (if 3 < length rgba then Inr (take 3 rgba @ drop 4 rgba) else Inl IndexError)"

definition times_255 :: "npfloat \<Rightarrow> npfloat" where
  "times_255 ch = (case ch of Fin q \<Rightarrow> Fin (255 * q) | _ \<Rightarrow> ch)"

text \<open>\<^verbatim>\<open>write_gif_pseudocolor\<close> up to the frames it hands to the encoder.\<close>

definition write_gif_pseudocolor ::
  "(npfloat \<Rightarrow> npfloat) \<Rightarrow> (npfloat arr3 \<Rightarrow> nat \<Rightarrow> error + npfloat arr3)
     \<Rightarrow> (string \<rightharpoonup> (npfloat \<Rightarrow> npfloat list))
     \<Rightarrow> rat arr3 \<Rightarrow> rat \<Rightarrow> string \<Rightarrow> nat \<Rightarrow> error + npfloat arr3 list" where
  "write_gif_pseudocolor und resize registry data size_factor colormap frameskip =
     ebind (load_and_prepare_image und resize data size_factor) (\<lambda>(out_img, maximum).
     ebind (create_mosaic_normal out_img maximum frameskip) (\<lambda>new_img.
     ebind (get_cmap registry colormap) (\<lambda>cmap.
     ebind (emap (\<lambda>i. ebind (py_get new_img i) (\<lambda>f. Inr (map (map cmap) f))) [0..<maximum])
       (\<lambda>color_transformed.
     ebind (if color_transformed = [] then Inl AxisError
            else emap (emap (emap drop_alpha)) color_transformed) (\<lambda>deleted.
       Inr (map (map3 (\<lambda>ch. astype_uint8 und (times_255 ch))) deleted))))))"

section \<open>Concrete parameters for closed examples\<close>

text \<open>A platform on which every conversion that C leaves open gives 0.\<close>

definition und_zero :: "npfloat \<Rightarrow> npfloat" where
  "und_zero x = Fin 0"

text \<open>A resize by nearest-neighbour sampling: it returns a cube of the requested side.\<close>

definition resize_nearest :: "npfloat arr3 \<Rightarrow> nat \<Rightarrow> error + npfloat arr3" where
  "resize_nearest v n =
     (if v = [] then Inl ValueError
      else Inr (map (\<lambda>i. map (\<lambda>j. map (\<lambda>k.
             v ! (i * length v div n) ! (j * length v div n) ! (k * length v div n))
             [0..<n]) [0..<n]) [0..<n]))"

section \<open>Facts about the primitives\<close>

lemma emap_Inr: "(\<And>x. x \<in> set xs \<Longrightarrow> f x = Inr (g x)) \<Longrightarrow> emap f xs = Inr (map g xs)"
  by (induction xs) auto

lemma div_add_step: "0 < (s::nat) \<Longrightarrow> (m + s) div s = Suc (m div s)"
  by simp

lemma range_from_map:
  "0 < step \<Longrightarrow> range_from i stop step = map (\<lambda>k. i + k * step) [0..<(stop - i + step - 1) div step]"
proof (induction i stop step rule: range_from.induct)
  case (1 i stop step)
  show ?case
  proof (cases "i < stop")
    case True
    have cnt: "(stop - i + step - 1) div step = Suc ((stop - (i + step) + step - 1) div step)"
    proof (cases "i + step \<le> stop")
      case True
      then have "stop - i + step - 1 = (stop - (i + step) + step - 1) + step" using 1(2) by arith
      then have "(stop - i + step - 1) div step = ((stop - (i + step) + step - 1) + step) div step" by (rule arg_cong)
      also have "\<dots> = Suc ((stop - (i + step) + step - 1) div step)" using 1(2) by (rule div_add_step)
      finally show ?thesis .
    next
      case False
      then have a: "stop - (i + step) + step - 1 = step - 1" by arith
      have b: "stop - i + step - 1 = (stop - i - 1) + step" using True by arith
      have c: "stop - i - 1 < step" using False True by arith
      have "(stop - i - 1 + step) div step = Suc 0" using c div_add_step[OF 1(2), of "stop - i - 1"] by simp
      moreover have "(step - 1) div step = 0" using 1(2) by simp
      ultimately show ?thesis unfolding a b by simp
    qed
    have "range_from i stop step = i # range_from (i + step) stop step"
      using True 1(2) by (subst range_from.simps) simp
    also have "\<dots> = i # map (\<lambda>k. i + step + k * step) [0..<(stop - (i + step) + step - 1) div step]"
      using 1 True by simp
    also have "\<dots> = map (\<lambda>k. i + k * step) [0..<Suc ((stop - (i + step) + step - 1) div step)]"
      unfolding upt_conv_Cons[OF zero_less_Suc] 
      by (simp add: map_Suc_upt[symmetric] del: upt_Suc) 
    finally show ?thesis unfolding cnt .
  next
    case False
    then have "stop - i + step - 1 < step" using 1(2) by arith
    then have "(stop - i + step - 1) div step = 0" by simp
    moreover have "range_from i stop step = []" using False by (subst range_from.simps) simp
    ultimately show ?thesis by simp
  qed
qed

lemma ceil_div: 
  assumes s: "0 < (s::nat)"
  shows "int ((n + s - 1) div s) = \<lceil>(of_nat n :: rat) / of_nat s\<rceil>"
proof -
  define z where "z = (n + s - 1) div s"
  have m: "z * s + (n + s - 1) mod s = n + s - 1" unfolding z_def by simp
  have r: "(n + s - 1) mod s < s" using s by simp
  have up: "n \<le> z * s" using m r s by arith
  have lo: "z * s < n + s" using m s by arith
  have "\<lceil>(of_nat n :: rat) / of_nat s\<rceil> = int z"
  proof (rule ceiling_unique)
    have "(of_nat (z * s) :: rat) < of_nat (n + s)" using lo by (simp only: of_nat_less_iff)
    then have "(of_nat z - 1) * (of_nat s :: rat) < of_nat n" by (simp add: algebra_simps)
    then show "of_int (int z) - 1 < (of_nat n :: rat) / of_nat s" using s by (simp add: pos_less_divide_eq)
    have "(of_nat n :: rat) \<le> of_nat (z * s)" using up by (simp only: of_nat_le_iff)
    then show "(of_nat n :: rat) / of_nat s \<le> of_int (int z)" using s by (simp add: pos_divide_le_eq)
  qed
  then show ?thesis unfolding z_def by simp
qed

lemma shape3_cube: "is_cube n v \<Longrightarrow> 0 < n \<Longrightarrow> shape3 v = (n, n, n)"
  by (cases v; cases "hd v") (auto simp: is_cube_def has_shape_def shape3_def)

lemma mosaic_frame_cube:
  assumes c: "is_cube n v" and i: "i < n"
  shows "mosaic_frame v n i = Inr (map (\<lambda>(x, y). x @ y) (zip (map (\<lambda>(x, y). x @ y) (zip (np_T n (np_flip1 (v ! i)))
            (np_T n (np_flip1 (map (\<lambda>p. p ! (n - i - 1)) v)))))
            (np_T n (np_flip1 (map (map (\<lambda>r. r ! (n - i - 1))) v)))))"
proof -
  have sh: "shape3 v = (n, n, n)" using shape3_cube[OF c] i by simp
  have j: "n - i - 1 < n" using i by arith
  show ?thesis
    using i j by (simp add: mosaic_frame_def sh take_axis0_def take_axis1_def take_axis2_def ebind_def np_hstack_def np_T_def)
qed


lemma panel_entries:
  assumes "length m = n" and "\<And>row. row \<in> set m \<Longrightarrow> length row = n"
  shows "np_T n (np_flip1 m) = map (\<lambda>r. map (\<lambda>c. m ! c ! (n - 1 - r)) [0..<n]) [0..<n]"
proof -
  have "map (\<lambda>row. row ! r) (map rev m) = map (\<lambda>c. m ! c ! (n - 1 - r)) [0..<n]" if r: "r < n" for r
  proof (rule nth_equalityI)
    show "length (map (\<lambda>row. row ! r) (map rev m)) = length (map (\<lambda>c. m ! c ! (n - 1 - r)) [0..<n])"
      using assms(1) by simp
  next
    fix c assume "c < length (map (\<lambda>row. row ! r) (map rev m))"
    then have c: "c < n" using assms(1) by simp
    then have "length (m ! c) = n" using assms by simp
    then have "rev (m ! c) ! r = m ! c ! (n - 1 - r)" using r by (simp add: rev_nth)
    then show "map (\<lambda>row. row ! r) (map rev m) ! c = map (\<lambda>c. m ! c ! (n - 1 - r)) [0..<n] ! c"
      using c assms(1) by simp
  qed
  then show ?thesis by (simp add: np_T_def np_flip1_def)
qed

lemma cube_nth:
  assumes "is_cube n v" "x < n"
  shows "length (v ! x) = n" and "y < n \<Longrightarrow> length (v ! x ! y) = n"
proof -
  have m: "v ! x \<in> set v" using assms by (simp add: is_cube_def has_shape_def)
  then show l: "length (v ! x) = n" using assms by (simp add: is_cube_def has_shape_def)
  assume "y < n"
  then have "v ! x ! y \<in> set (v ! x)" using l by simp
  then show "length (v ! x ! y) = n" using m assms(1) unfolding is_cube_def has_shape_def by blast
qed

lemma hjoin_rows:
  "map (\<lambda>(x, y). x @ y) (zip (map f xs) (map g xs)) = map (\<lambda>r. f r @ g r) xs"
  by (induction xs) auto

lemma mosaic_frame_entries:
  assumes c: "is_cube n v" and i: "i < n"
  shows "mosaic_frame v n i = Inr (map (\<lambda>r.
            map (\<lambda>c. v ! i ! c ! (n - 1 - r)) [0..<n]
          @ map (\<lambda>c. v ! c ! (n - 1 - i) ! (n - 1 - r)) [0..<n]
          @ map (\<lambda>c. v ! c ! (n - 1 - r) ! (n - 1 - i)) [0..<n]) [0..<n])"
proof -
  have j: "n - i - 1 < n" using i by arith
  have jj: "n - i - 1 = n - 1 - i" by simp
  have p0: "np_T n (np_flip1 (v ! i)) = map (\<lambda>r. map (\<lambda>c. v ! i ! c ! (n - 1 - r)) [0..<n]) [0..<n]"
    using c i by (intro panel_entries) (auto simp: is_cube_def has_shape_def)
  have "np_T n (np_flip1 (map (\<lambda>p. p ! (n - i - 1)) v))
      = map (\<lambda>r. map (\<lambda>c. map (\<lambda>p. p ! (n - i - 1)) v ! c ! (n - 1 - r)) [0..<n]) [0..<n]"
    using c j by (intro panel_entries) (auto simp: is_cube_def has_shape_def)
  also have "\<dots> = map (\<lambda>r. map (\<lambda>c. v ! c ! (n - 1 - i) ! (n - 1 - r)) [0..<n]) [0..<n]"
    using c by (simp add: is_cube_def has_shape_def jj)
  finally have p1: "np_T n (np_flip1 (map (\<lambda>p. p ! (n - i - 1)) v))
      = map (\<lambda>r. map (\<lambda>c. v ! c ! (n - 1 - i) ! (n - 1 - r)) [0..<n]) [0..<n]" .
  have "np_T n (np_flip1 (map (map (\<lambda>r. r ! (n - i - 1))) v))
      = map (\<lambda>r. map (\<lambda>c. map (map (\<lambda>r. r ! (n - i - 1))) v ! c ! (n - 1 - r)) [0..<n]) [0..<n]"
    using c j by (intro panel_entries) (auto simp: is_cube_def has_shape_def)
  also have "\<dots> = map (\<lambda>r. map (\<lambda>c. v ! c ! (n - 1 - r) ! (n - 1 - i)) [0..<n]) [0..<n]"
  proof -
    have "map (map (\<lambda>r. r ! (n - i - 1))) v ! x ! (n - 1 - r) = v ! x ! (n - 1 - r) ! (n - 1 - i)"
      if "x < n" "r < n" for x r
    proof -
      have "n - 1 - r < length (v ! x)" using cube_nth(1)[OF c that(1)] that by arith
      then show ?thesis using c that by (simp add: is_cube_def has_shape_def jj)
    qed
    then show ?thesis by simp
  qed
  finally have p2: "np_T n (np_flip1 (map (map (\<lambda>r. r ! (n - i - 1))) v))
      = map (\<lambda>r. map (\<lambda>c. v ! c ! (n - 1 - r) ! (n - 1 - i)) [0..<n]) [0..<n]" .
  show ?thesis
    unfolding mosaic_frame_cube[OF c i] p0 p1 p2 hjoin_rows by simp
qed

lemma range_index_less:
  assumes "0 < (s::nat)" "k < (n + s - 1) div s"
  shows "k * s < n"
proof -
  have "Suc k \<le> (n + s - 1) div s" using assms(2) by simp
  then have "Suc k * s \<le> n + s - 1" using assms(1) by (simp add: less_eq_div_iff_mult_less_eq)
  then show ?thesis using assms(1) by simp
qed

lemma create_mosaic_normal_cube:
  assumes c: "is_cube n v" and f: "0 < frameskip"
  shows "create_mosaic_normal v n frameskip =
     Inr (map (\<lambda>k. (map (\<lambda>r.
            map (\<lambda>c. v ! (k * frameskip) ! c ! (n - 1 - r)) [0..<n]
          @ map (\<lambda>c. v ! c ! (n - 1 - k * frameskip) ! (n - 1 - r)) [0..<n]
          @ map (\<lambda>c. v ! c ! (n - 1 - r) ! (n - 1 - k * frameskip)) [0..<n]) [0..<n]))
          [0..<(n + frameskip - 1) div frameskip])"
proof -
  let ?cnt = "(n + frameskip - 1) div frameskip"
  let ?g = "\<lambda>i. map (\<lambda>r.
            map (\<lambda>c. v ! i ! c ! (n - 1 - r)) [0..<n]
          @ map (\<lambda>c. v ! c ! (n - 1 - i) ! (n - 1 - r)) [0..<n]
          @ map (\<lambda>c. v ! c ! (n - 1 - r) ! (n - 1 - i)) [0..<n]) [0..<n]"
  have r: "range_from 0 n frameskip = map (\<lambda>k. k * frameskip) [0..<?cnt]"
    using range_from_map[OF f, of 0 n] by simp
  have "mosaic_frame v n i = Inr (?g i)" if "i \<in> set (range_from 0 n frameskip)" for i
  proof -
    have "i \<in> set (map (\<lambda>k. k * frameskip) [0..<?cnt])" using that by (simp only: r)
    then have "i \<in> (\<lambda>k. k * frameskip) ` {0..<?cnt}" by (simp only: set_map set_upt)
    then obtain k where k: "k < ?cnt" "i = k * frameskip" by (elim imageE) simp
    have "i < n" using range_index_less[OF f k(1)] k(2) by simp
    then show ?thesis by (rule mosaic_frame_entries[OF c])
  qed
  then have "emap (mosaic_frame v n) (range_from 0 n frameskip) = Inr (map ?g (range_from 0 n frameskip))"
    by (rule emap_Inr)
  then show ?thesis
    using f by (simp add: create_mosaic_normal_def py_range_def ebind_def r comp_def)
qed

section \<open>Facts about padding and rescaling\<close>

lemma legacy_start_floor:
  assumes "d \<le> maximum"
  shows "legacy_start maximum d = int ((maximum - d) div 2)"
proof -
  have e: "((of_nat d :: rat) - of_nat maximum) / (- 2) = of_int (int (maximum - d)) / of_int 2"
    using assms by (simp add: of_nat_diff field_simps)
  have "0 \<le> (of_int (int (maximum - d)) :: rat) / of_int 2" by simp
  then have "legacy_start maximum d = \<lfloor>(of_int (int (maximum - d)) :: rat) / of_int 2\<rfloor>"
    unfolding legacy_start_def py_int_def e by simp
  also have "\<dots> = int (maximum - d) div 2" by (rule floor_divide_of_int_eq)
  also have "\<dots> = int ((maximum - d) div 2)" by (simp add: zdiv_int)
  finally show ?thesis .
qed

lemma iso_start_floor:
  assumes "d \<le> maximum"
  shows "iso_start maximum d = int ((maximum - d) div 2)"
  using assms by (simp add: iso_start_def of_nat_diff zdiv_int)

lemma assign1_length:
  "s + length src \<le> length out \<Longrightarrow> length (assign1 s f out src) = length out"
  by (simp add: assign1_def)

lemma assign1_nth:
  assumes "s + length src \<le> length out" and "i < length out"
  shows "assign1 s f out src ! i =
           (if s \<le> i \<and> i < s + length src then f (out ! i) (src ! (i - s)) else out ! i)"
proof -
  consider "i < s" | "s \<le> i" "i < s + length src" | "s + length src \<le> i" by linarith
  then show ?thesis
  proof cases
    case 1
    then show ?thesis using assms by (simp add: assign1_def nth_append)
  next
    case 2
    then have "i - s < length (zip (drop s out) src)" using assms by simp
    then show ?thesis using assms 2 by (simp add: assign1_def nth_append)
  next
    case 3
    let ?M = "map (\<lambda>(x, y). f x y) (zip (drop s out) src)"
    let ?D = "drop (s + length src) out"
    have lm: "length ?M = length src" using assms by simp
    have lt: "length (take s out) = s" using assms by simp
    have "assign1 s f out src ! i = (?M @ ?D) ! (i - s)"
      unfolding assign1_def using 3 lt by (simp only: nth_append) simp
    also have "\<dots> = ?D ! (i - s - length src)"
      using 3 lm by (simp only: nth_append) simp
    also have "\<dots> = out ! (s + length src + (i - s - length src))"
      using assms by (intro nth_drop) simp
    also have "s + length src + (i - s - length src) = i" using 3 by simp
    finally show ?thesis using 3 by simp
  qed
qed


lemma has_shape_nth:
  assumes "has_shape a b c v" "i < a"
  shows "length (v ! i) = b" and "j < b \<Longrightarrow> length (v ! i ! j) = c"
proof -
  have m: "v ! i \<in> set v" using assms by (simp add: has_shape_def)
  then show l: "length (v ! i) = b" using assms by (simp add: has_shape_def)
  assume "j < b"
  then have "v ! i ! j \<in> set (v ! i)" using l by simp
  then show "length (v ! i ! j) = c" using m assms(1) unfolding has_shape_def by blast
qed

lemma has_shapeI:
  assumes "length v = a"
    and "\<And>i. i < a \<Longrightarrow> length (v ! i) = b"
    and "\<And>i j. i < a \<Longrightarrow> j < b \<Longrightarrow> length (v ! i ! j) = c"
  shows "has_shape a b c v"
  unfolding has_shape_def
proof (intro conjI ballI)
  show "length v = a" by (rule assms(1))
next
  fix p assume "p \<in> set v"
  then obtain i where i: "i < a" "p = v ! i" using assms(1) by (auto simp: in_set_conv_nth)
  then show "length p = b" using assms(2) by simp
  fix r assume "r \<in> set p"
  then obtain j where "j < b" "r = p ! j" using i assms(2) by (auto simp: in_set_conv_nth)
  then show "length r = c" using i assms(3) by simp
qed

lemma pad_block:
  assumes sh: "has_shape a b c data"
    and fx: "sx + a \<le> n" and fy: "sy + b \<le> n" and fz: "sz + c \<le> n"
  shows "is_cube n (assign1 sx (assign1 sy (assign1 sz (\<lambda>x y. y))) (np_zeros3 n) data)"
    and "i < n \<Longrightarrow> j < n \<Longrightarrow> k < n \<Longrightarrow>
         assign1 sx (assign1 sy (assign1 sz (\<lambda>x y. y))) (np_zeros3 n) data ! i ! j ! k =
           (if sx \<le> i \<and> i < sx + a \<and> sy \<le> j \<and> j < sy + b \<and> sz \<le> k \<and> k < sz + c
            then data ! (i - sx) ! (j - sy) ! (k - sz) else 0)"
proof -
  let ?P = "assign1 sx (assign1 sy (assign1 sz (\<lambda>x y. y))) (np_zeros3 n) data"
  let ?z2 = "replicate n (replicate n (0::rat))"
  let ?z1 = "replicate n (0::rat)"
  have la: "length data = a" using sh by (simp add: has_shape_def)
  have lP: "length ?P = n" using fx la by (simp add: assign1_length np_zeros3_def)
  have row: "?P ! i = (if sx \<le> i \<and> i < sx + a
                       then assign1 sy (assign1 sz (\<lambda>x y. y)) ?z2 (data ! (i - sx)) else ?z2)"
    if "i < n" for i
    using that fx la by (simp add: assign1_nth np_zeros3_def)
  have lb: "length (data ! (i - sx)) = b" if "sx \<le> i" "i < sx + a" for i
    using has_shape_nth(1)[OF sh, of "i - sx"] that by simp
  have lrow: "length (?P ! i) = n" if "i < n" for i
    using that fy lb by (simp add: row assign1_length)
  have col: "?P ! i ! j = (if sx \<le> i \<and> i < sx + a \<and> sy \<le> j \<and> j < sy + b
                       then assign1 sz (\<lambda>x y. y) ?z1 (data ! (i - sx) ! (j - sy)) else ?z1)"
    if "i < n" "j < n" for i j
    using that fy lb by (simp add: row assign1_nth)
  have lc: "length (data ! (i - sx) ! (j - sy)) = c"
    if "sx \<le> i" "i < sx + a" "sy \<le> j" "j < sy + b" for i j
    using has_shape_nth(2)[OF sh, of "i - sx" "j - sy"] that by simp
  have lcol: "length (?P ! i ! j) = n" if "i < n" "j < n" for i j
    using that fz lc by (simp add: col assign1_length)
  show "is_cube n ?P" unfolding is_cube_def
    using lP lrow lcol by (intro has_shapeI) auto
  show "?P ! i ! j ! k =
           (if sx \<le> i \<and> i < sx + a \<and> sy \<le> j \<and> j < sy + b \<and> sz \<le> k \<and> k < sz + c
            then data ! (i - sx) ! (j - sy) ! (k - sz) else 0)"
    if "i < n" "j < n" "k < n"
    using that fz lc by (simp add: col assign1_nth)
qed


lemma shape3_has_shape:
  assumes "has_shape a b c v" "1 \<le> a" "1 \<le> b"
  shows "shape3 v = (a, b, c)"
proof -
  obtain p ps where v: "v = p # ps" using assms by (cases v) (auto simp: has_shape_def)
  then have lp: "length p = b" using assms by (simp add: has_shape_def)
  then obtain r rs where p: "p = r # rs" using assms by (cases p) auto
  then have "length r = c" using assms v by (simp add: has_shape_def)
  then show ?thesis using v p lp assms by (simp add: shape3_def has_shape_def)
qed

lemma shape3_zeros: "1 \<le> n \<Longrightarrow> shape3 (np_zeros3 n) = (n, n, n)"
  by (cases n) (simp_all add: shape3_def np_zeros3_def)

lemma slice_extent_fit: "s + d \<le> n \<Longrightarrow> slice_extent n s (s + d) = d"
  by (simp add: slice_extent_def)

lemma half_pad_fits: "d \<le> n \<Longrightarrow> (n - d) div 2 + d \<le> (n::nat)"
  by arith

lemma iso_fit:
  assumes "d \<le> n"
  shows "nat (iso_start n d) = (n - d) div 2" and "slice_extent n ((n - d) div 2) ((n - d) div 2 + d) = d"
  using assms half_pad_fits[OF assms] by (simp_all add: iso_start_floor slice_extent_fit)

lemma pad_cube_isotropic_eq:
  assumes sh: "has_shape a b c data" and d: "1 \<le> a" "1 \<le> b" "1 \<le> c"
  shows "pad_cube_isotropic data =
           Inr (assign1 ((max a (max b c) - a) div 2)
                 (assign1 ((max a (max b c) - b) div 2)
                   (assign1 ((max a (max b c) - c) div 2) (\<lambda>x y. y)))
                 (np_zeros3 (max a (max b c))) data)"
proof -
  define n where "n = max a (max b c)"
  have n: "1 \<le> n" using d by (simp add: n_def)
  have le: "a \<le> n" "b \<le> n" "c \<le> n" by (simp_all add: n_def)
  have "pad_cube_isotropic data =
          assign_slice3 (np_zeros3 n) (nat (iso_start n a)) (nat (iso_start n a) + a)
            (nat (iso_start n b)) (nat (iso_start n b) + b)
            (nat (iso_start n c)) (nat (iso_start n c) + c) data"
    by (simp add: pad_cube_isotropic_def shape3_has_shape[OF sh d(1,2)] Let_def n_def)
  also have "\<dots> = Inr (assign1 ((n - a) div 2) (assign1 ((n - b) div 2)
                   (assign1 ((n - c) div 2) (\<lambda>x y. y))) (np_zeros3 n) data)"
    by (simp only: iso_fit[OF le(1)] iso_fit[OF le(2)] iso_fit[OF le(3)] assign_slice3_def
          shape3_zeros[OF n] shape3_has_shape[OF sh d(1,2)] prod.case if_True simp_thms)
  finally show ?thesis unfolding n_def .
qed

lemma pad_cube_legacy_eq_isotropic: "pad_cube_legacy data = pad_cube_isotropic data"
proof -
  obtain a b c where s: "shape3 data = (a, b, c)" by (cases "shape3 data") auto
  define n where "n = max a (max b c)"
  have le: "a \<le> n" "b \<le> n" "c \<le> n" by (simp_all add: n_def)
  have e: "legacy_start n a = iso_start n a" "legacy_start n b = iso_start n b"
    "legacy_start n c = iso_start n c"
    using le by (simp_all only: legacy_start_floor iso_start_floor)
  have "pad_cube_legacy data =
          assign_slice3 (np_zeros3 n) (nat (legacy_start n a)) (a + nat (legacy_start n a))
            (nat (legacy_start n b)) (b + nat (legacy_start n b))
            (nat (legacy_start n c)) (c + nat (legacy_start n c)) data"
    by (simp add: pad_cube_legacy_def s Let_def n_def)
  also have "\<dots> =
          assign_slice3 (np_zeros3 n) (nat (iso_start n a)) (nat (iso_start n a) + a)
            (nat (iso_start n b)) (nat (iso_start n b) + b)
            (nat (iso_start n c)) (nat (iso_start n c) + c) data"
    by (simp only: e add.commute)
  also have "\<dots> = pad_cube_isotropic data"
    by (simp add: pad_cube_isotropic_def s Let_def n_def)
  finally show ?thesis .
qed

lemma in_set_nonempty: "x \<in> set xs \<Longrightarrow> xs \<noteq> []"
  by auto

lemma np_max_iff:
  "np_max v = Inr m \<longleftrightarrow> concat (concat v) \<noteq> [] \<and> m = Max (set (concat (concat v)))"
proof (cases "concat (concat v)")
  case Nil
  show ?thesis unfolding np_max_def Nil by simp
next
  case (Cons x xs)
  have "fold max xs x = Max (set (x # xs))" by (rule Max.set_eq_fold[symmetric])
  then show ?thesis using Cons by (auto simp: np_max_def)
qed

lemma flat_set:
  assumes "has_shape a b c v"
  shows "set (concat (concat v)) = {v ! i ! j ! k | i j k. i < a \<and> j < b \<and> k < c}"
proof (intro set_eqI iffI)
  fix x assume "x \<in> set (concat (concat v))"
  then obtain r where r: "r \<in> set (concat v)" "x \<in> set r" by auto
  then obtain p where p: "p \<in> set v" "r \<in> set p" by auto
  obtain i where i: "i < length v" "p = v ! i" using p(1) by (auto simp: in_set_conv_nth)
  obtain j where j: "j < length p" "r = p ! j" using p(2) by (auto simp: in_set_conv_nth)
  obtain k where k: "k < length r" "x = r ! k" using r(2) by (auto simp: in_set_conv_nth)
  have "i < a" "j < b" "k < c"
    using assms i j k p r unfolding has_shape_def by auto
  then show "x \<in> {v ! i ! j ! k | i j k. i < a \<and> j < b \<and> k < c}" using i j k by blast
next
  fix x assume "x \<in> {v ! i ! j ! k | i j k. i < a \<and> j < b \<and> k < c}"
  then obtain i j k where x: "x = v ! i ! j ! k" "i < a" "j < b" "k < c" by blast
  have 1: "v ! i \<in> set v" using assms x by (simp add: has_shape_def)
  have 2: "v ! i ! j \<in> set (v ! i)" using has_shape_nth(1)[OF assms x(2)] x by simp
  have 3: "v ! i ! j ! k \<in> set (v ! i ! j)" using has_shape_nth(2)[OF assms x(2,3)] x by simp
  show "x \<in> set (concat (concat v))" using 1 2 3 x(1) by auto
qed

lemma np_max_padded:
  assumes sh: "has_shape a b c data"
    and fx: "sx + a \<le> n" and fy: "sy + b \<le> n" and fz: "sz + c \<le> n"
    and m: "np_max data = Inr m" and m0: "0 \<le> m"
  shows "np_max (assign1 sx (assign1 sy (assign1 sz (\<lambda>x y. y))) (np_zeros3 n) data) = Inr m"
proof -
  let ?P = "assign1 sx (assign1 sy (assign1 sz (\<lambda>x y. y))) (np_zeros3 n) data"
  let ?D = "set (concat (concat data))"
  have cube: "has_shape n n n ?P"
    using pad_block(1)[OF sh fx fy fz] by (simp add: is_cube_def)
  have SP: "set (concat (concat ?P)) = {?P ! i ! j ! k | i j k. i < n \<and> j < n \<and> k < n}"
    by (rule flat_set[OF cube])
  have SD: "?D = {data ! i ! j ! k | i j k. i < a \<and> j < b \<and> k < c}"
    by (rule flat_set[OF sh])
  have ne: "?D \<noteq> {}" and mx: "m = Max ?D" using m by (simp_all add: np_max_iff)
  have fin: "finite ?D" by simp
  have "m \<in> ?D" unfolding mx using fin ne by (rule Max_in)
  then obtain i j k where ijk: "m = data ! i ! j ! k" "i < a" "j < b" "k < c" unfolding SD by blast
  have "?P ! (i + sx) ! (j + sy) ! (k + sz) = m"
    using pad_block(2)[OF sh fx fy fz, of "i + sx" "j + sy" "k + sz"] ijk fx fy fz by simp
  moreover have "i + sx < n" "j + sy < n" "k + sz < n" using ijk fx fy fz by simp_all
  ultimately have mem: "m \<in> set (concat (concat ?P))" unfolding SP by blast
  have le: "x \<le> m" if xin: "x \<in> set (concat (concat ?P))" for x
  proof -
    obtain i j k where x: "x = ?P ! i ! j ! k" "i < n" "j < n" "k < n" using xin unfolding SP by blast
    show ?thesis
    proof (cases "sx \<le> i \<and> i < sx + a \<and> sy \<le> j \<and> j < sy + b \<and> sz \<le> k \<and> k < sz + c")
      case True
      have "x = (if sx \<le> i \<and> i < sx + a \<and> sy \<le> j \<and> j < sy + b \<and> sz \<le> k \<and> k < sz + c
            then data ! (i - sx) ! (j - sy) ! (k - sz) else 0)"
        using pad_block(2)[OF sh fx fy fz x(2,3,4)] x(1) by simp
      then have "x = data ! (i - sx) ! (j - sy) ! (k - sz)" using True by simp
      moreover have "i - sx < a" "j - sy < b" "k - sz < c" using True by auto
      ultimately have "x \<in> ?D" unfolding SD by blast
      then show ?thesis unfolding mx using fin by (rule Max_ge[rotated])
    next
      case False
      have "x = (if sx \<le> i \<and> i < sx + a \<and> sy \<le> j \<and> j < sy + b \<and> sz \<le> k \<and> k < sz + c
            then data ! (i - sx) ! (j - sy) ! (k - sz) else 0)"
        using pad_block(2)[OF sh fx fy fz x(2,3,4)] x(1) by simp
      then have "x = 0" using False by (simp only: if_False)
      then show ?thesis using m0 by simp
    qed
  qed
  have e: "Max (set (concat (concat ?P))) = m"
    using mem le by (intro Max_eqI) simp_all
  have "concat (concat ?P) \<noteq> []" using mem by (rule in_set_nonempty)
  then show ?thesis unfolding np_max_iff using e by (simp only: simp_thms)
qed


lemma has_shape_map3: "has_shape a b c v \<Longrightarrow> has_shape a b c (map3 f v)"
  by (auto simp: has_shape_def map3_def)

lemma is_cube_map3: "is_cube n v \<Longrightarrow> is_cube n (map3 f v)"
  by (simp add: is_cube_def has_shape_map3)

lemma map3_cong:
  assumes "\<And>x. x \<in> set (concat (concat v)) \<Longrightarrow> f x = g x"
  shows "map3 f v = map3 g v"
  unfolding map3_def using assms by (auto intro!: map_cong)


lemma scale_to_uint8_zero:
  assumes "np_max p = Inr 0"
  shows "scale_to_uint8 und p = Inr (map3 (\<lambda>v. und (if v = 0 then NaN else NInf)) p)"
proof -
  have ne: "concat (concat p) \<noteq> []" and mx: "0 = Max (set (concat (concat p)))"
    using assms by (simp_all add: np_max_iff)
  have le: "x \<le> 0" if "x \<in> set (concat (concat p))" for x
  proof -
    have "x \<le> Max (set (concat (concat p)))" using that by (intro Max_ge) simp_all
    then show ?thesis by (simp only: mx[symmetric])
  qed
  have "map3 (\<lambda>v. astype_uint8 und (np_multiply v (np_true_divide 255 0))) p
      = map3 (\<lambda>v. und (if v = 0 then NaN else NInf)) p"
  proof (rule map3_cong)
    fix x assume "x \<in> set (concat (concat p))"
    then have "x \<le> 0" by (rule le)
    then show "astype_uint8 und (np_multiply x (np_true_divide 255 0)) = und (if x = 0 then NaN else NInf)"
      by (simp add: np_true_divide_def np_multiply_def astype_uint8_def)
  qed
  then show ?thesis using assms by (simp add: scale_to_uint8_def ebind_def)
qed

lemma astype_uint8_zero: "astype_uint8 und (Fin 0) = Fin 0"
  by (simp add: astype_uint8_def py_int_def)



lemma load_isotropic_size_one:
  assumes sh: "has_shape a b c data" and d: "1 \<le> a" "1 \<le> b" "1 \<le> c"
    and pad: "pad_cube_isotropic data = Inr p"
    and sc: "scale_to_uint8 und p = Inr q"
  shows "load_and_prepare_image_isotropic und resize data 1 = Inr (q, max a (max b c))"
  by (simp add: load_and_prepare_image_isotropic_def shape3_has_shape[OF sh d(1,2)]
        pad sc ebind_def)


lemma py_int_of_nat: "py_int (of_nat n) = int n"
  by (simp add: py_int_def)

lemma load_legacy_size_one:
  assumes sh: "has_shape a b c data" and d: "1 \<le> a" "1 \<le> b" "1 \<le> c"
    and pad: "pad_cube_legacy data = Inr p"
    and sc: "scale_to_uint8 und p = Inr q"
  shows "load_and_prepare_image und resize data 1 = Inr (q, max a (max b c))"
  by (simp add: load_and_prepare_image_def shape3_has_shape[OF sh d(1,2)]
        pad sc ebind_def py_int_of_nat)

lemma pad_cube_is_cube:
  assumes sh: "has_shape a b c data" and d: "1 \<le> a" "1 \<le> b" "1 \<le> c"
  shows "\<exists>p. pad_cube_isotropic data = Inr p \<and> pad_cube_legacy data = Inr p
            \<and> is_cube (max a (max b c)) p"
proof -
  let ?n = "max a (max b c)"
  have le: "a \<le> ?n" "b \<le> ?n" "c \<le> ?n" by simp_all
  have "is_cube ?n (assign1 ((?n - a) div 2) (assign1 ((?n - b) div 2)
          (assign1 ((?n - c) div 2) (\<lambda>x y. y))) (np_zeros3 ?n) data)"
    by (rule pad_block(1)[OF sh half_pad_fits[OF le(1)] half_pad_fits[OF le(2)] half_pad_fits[OF le(3)]])
  then show ?thesis
    using pad_cube_isotropic_eq[OF sh d] by (simp add: pad_cube_legacy_eq_isotropic)
qed

lemma scale_cases:
  "(\<exists>e. scale_to_uint8 und p = Inl e) \<or> (\<exists>f. scale_to_uint8 und p = Inr (map3 f p))"
  by (cases "np_max p") (auto simp: scale_to_uint8_def ebind_def)

lemma load_legacy_cube:
  assumes contract: "\<forall>v n r. resize v n = Inr r \<longrightarrow> is_cube n r"
    and sh: "has_shape a b c data" and d: "1 \<le> a" "1 \<le> b" "1 \<le> c"
    and load: "load_and_prepare_image und resize data s = Inr (arr, m)"
  shows "is_cube m arr"
proof -
  let ?n = "max a (max b c)"
  obtain p where p: "pad_cube_legacy data = Inr p" "is_cube ?n p"
    using pad_cube_is_cube[OF sh d] by blast
  from scale_cases[of und p] show ?thesis
  proof (elim disjE exE)
    fix e assume "scale_to_uint8 und p = Inl e"
    then have "load_and_prepare_image und resize data s = Inl e"
      by (simp add: load_and_prepare_image_def shape3_has_shape[OF sh d(1,2)] p ebind_def)
    then show ?thesis using load by simp
  next
    fix f assume sc: "scale_to_uint8 und p = Inr (map3 f p)"
    have cq: "is_cube ?n (map3 f p)" by (rule is_cube_map3[OF p(2)])
    show ?thesis
    proof (cases "s = 1")
      case True
      have "load_and_prepare_image und resize data 1 = Inr (map3 f p, ?n)"
        by (rule load_legacy_size_one[OF sh d p(1) sc])
      then show ?thesis using load cq True by simp
    next
      case False
      let ?k = "py_int (s * of_nat ?n)"
      have l: "load_and_prepare_image und resize data s =
            ebind (if ?k < 0 then Inl ValueError else resize (map3 f p) (nat ?k))
              (\<lambda>out_img. Inr (out_img, nat ?k))"
        using False
        by (simp add: load_and_prepare_image_def shape3_has_shape[OF sh d(1,2)] p sc ebind_def
              mult.commute Let_def)
      show ?thesis
      proof (cases "?k < 0")
        case True
        then show ?thesis using load unfolding l by (simp add: ebind_def)
      next
        case nonneg: False
        show ?thesis
        proof (cases "resize (map3 f p) (nat ?k)")
          case (Inl e)
          then show ?thesis using load nonneg unfolding l by (simp add: ebind_def)
        next
          case (Inr r)
          then have "is_cube (nat ?k) r" using contract by blast
          moreover have "arr = r" "m = nat ?k" using load nonneg Inr unfolding l by (simp_all add: ebind_def)
          ultimately show ?thesis by simp
        qed
      qed
    qed
  qed
qed

lemma is_cube_length: "is_cube n v \<Longrightarrow> length v = n"
  by (simp add: is_cube_def has_shape_def)

lemma load_isotropic_cube:
  assumes contract: "\<forall>v n r. resize v n = Inr r \<longrightarrow> is_cube n r"
    and sh: "has_shape a b c data" and d: "1 \<le> a" "1 \<le> b" "1 \<le> c"
    and load: "load_and_prepare_image_isotropic und resize data s = Inr (arr, m)"
  shows "is_cube m arr"
proof -
  let ?n = "max a (max b c)"
  obtain p where p: "pad_cube_isotropic data = Inr p" "is_cube ?n p"
    using pad_cube_is_cube[OF sh d] by blast
  from scale_cases[of und p] show ?thesis
  proof (elim disjE exE)
    fix e assume "scale_to_uint8 und p = Inl e"
    then have "load_and_prepare_image_isotropic und resize data s = Inl e"
      by (simp add: load_and_prepare_image_isotropic_def shape3_has_shape[OF sh d(1,2)] p ebind_def)
    then show ?thesis using load by simp
  next
    fix f assume sc: "scale_to_uint8 und p = Inr (map3 f p)"
    have cq: "is_cube ?n (map3 f p)" by (rule is_cube_map3[OF p(2)])
    show ?thesis
    proof (cases "s = 1")
      case True
      have "load_and_prepare_image_isotropic und resize data 1 = Inr (map3 f p, ?n)"
        by (rule load_isotropic_size_one[OF sh d p(1) sc])
      then show ?thesis using load cq True by simp
    next
      case False
      let ?k = "py_int (s * of_nat ?n)"
      have l: "load_and_prepare_image_isotropic und resize data s =
            (if ?k < 0 then Inl ValueError
             else ebind (resize (map3 f p) (nat ?k))
              (\<lambda>r. Inr (map3 (astype_uint8 und) r, length (map3 (astype_uint8 und) r))))"
        using False
        by (simp add: load_and_prepare_image_isotropic_def shape3_has_shape[OF sh d(1,2)] p sc
              ebind_def Let_def)
      show ?thesis
      proof (cases "?k < 0")
        case True
        then show ?thesis using load unfolding l by simp
      next
        case nonneg: False
        show ?thesis
        proof (cases "resize (map3 f p) (nat ?k)")
          case (Inl e)
          then show ?thesis using load nonneg unfolding l by (simp add: ebind_def)
        next
          case (Inr r)
          then have "is_cube (nat ?k) r" using contract by blast
          then have c: "is_cube (nat ?k) (map3 (astype_uint8 und) r)" by (rule is_cube_map3)
          have "arr = map3 (astype_uint8 und) r" "m = length (map3 (astype_uint8 und) r)"
            using load nonneg Inr unfolding l by (auto simp: ebind_def)
          then show ?thesis using c is_cube_length[OF c] by simp
        qed
      qed
    qed
  qed
qed

section \<open>Facts about the depth and RGB mosaics\<close>

lemma ebind_Inr: "ebind (Inr x) f = f x"
  by (simp add: ebind_def)

lemma frame_shape_rows:
  assumes "1 \<le> n" "\<And>r. length (h r) = w"
  shows "frame_shape (map h [0..<n]) = (n, w)"
proof -
  have "[0..<n] = 0 # [Suc 0..<n]" using assms(1) by (simp add: upt_conv_Cons)
  then show ?thesis using assms by (simp add: frame_shape_def)
qed

lemma frames_of_cube:
  assumes c: "is_cube n v" and n: "1 \<le> n"
  shows "\<exists>F. create_mosaic_normal v n 1 = Inr F \<and> length F = n
           \<and> (\<forall>i<n. frame_shape (F ! i) = (n, 3 * n) \<and> (\<forall>r \<in> set (F ! i). length r = 3 * n))"
proof -
  let ?G = "\<lambda>k. map (\<lambda>r.
            map (\<lambda>c. v ! (k * 1) ! c ! (n - 1 - r)) [0..<n]
          @ map (\<lambda>c. v ! c ! (n - 1 - k * 1) ! (n - 1 - r)) [0..<n]
          @ map (\<lambda>c. v ! c ! (n - 1 - r) ! (n - 1 - k * 1)) [0..<n]) [0..<n]"
  have e: "create_mosaic_normal v n 1 = Inr (map ?G [0..<(n + 1 - 1) div 1])"
    by (rule create_mosaic_normal_cube[OF c zero_less_one])
  have cnt: "(n + 1 - 1) div 1 = n" by simp
  have 1: "create_mosaic_normal v n 1 = Inr (map ?G [0..<n])" using e unfolding cnt .
  have 2: "length (map ?G [0..<n]) = n" by simp
  have 3: "frame_shape (map ?G [0..<n] ! i) = (n, 3 * n)
           \<and> (\<forall>r \<in> set (map ?G [0..<n] ! i). length r = 3 * n)" if "i < n" for i
  proof
    have "frame_shape (?G i) = (n, 3 * n)" by (rule frame_shape_rows[OF n]) simp
    then show "frame_shape (map ?G [0..<n] ! i) = (n, 3 * n)" using that by simp
    show "\<forall>r \<in> set (map ?G [0..<n] ! i). length r = 3 * n" using that by auto
  qed
  show ?thesis
    apply (rule exI[of _ "map ?G [0..<n]"])
    apply (rule conjI[OF 1], rule conjI[OF 2])
    apply (intro allI impI)
    apply (rule 3, assumption)
    done
qed

lemma roll_groups_rect:
  assumes ne: "groups \<noteq> []" and l: "0 < l"
    and r: "\<And>g. g \<in> set groups \<Longrightarrow>
              length g = l \<and> (\<forall>f \<in> set g. frame_shape f = (h, w) \<and> (\<forall>r \<in> set f. length r = w))"
  shows "roll_groups groups = Inr (map (stack_channels h w) groups)"
proof -
  obtain g gs where g: "groups = g # gs" using ne by (cases groups) auto
  have gl: "length g = l" using r[of g] g by simp
  then obtain f fs where f: "g = f # fs" using l by (cases g) auto
  have fsh: "frame_shape f = (h, w)" using r[of g] g f by simp
  have cond: "\<forall>g' \<in> set groups. length g' = length g
                     \<and> (\<forall>f' \<in> set g'. frame_shape f' = frame_shape f
                           \<and> (\<forall>r \<in> set f'. length r = snd (frame_shape f)))"
    using r gl fsh by simp
  have "roll_groups groups =
          (if \<forall>g' \<in> set groups. length g' = length g
                     \<and> (\<forall>f' \<in> set g'. frame_shape f' = frame_shape f
                           \<and> (\<forall>r \<in> set f'. length r = snd (frame_shape f)))
           then Inr (map (stack_channels (fst (frame_shape f)) (snd (frame_shape f))) groups)
           else Inl ValueError)"
    unfolding roll_groups_def by (simp add: g f)
  also have "\<dots> = Inr (map (stack_channels (fst (frame_shape f)) (snd (frame_shape f))) groups)"
    by (rule if_P[OF cond])
  finally show ?thesis by (simp add: fsh)
qed

lemma shape3_stack_channels:
  assumes "1 \<le> h" "1 \<le> w"
  shows "shape3 (stack_channels h w g) = (h, w, length g)"
proof -
  have a: "[0..<h] = 0 # [Suc 0..<h]" using assms(1) by (simp add: upt_conv_Cons)
  have b: "[0..<w] = 0 # [Suc 0..<w]" using assms(2) by (simp add: upt_conv_Cons)
  show ?thesis unfolding stack_channels_def shape3_def a b using assms by simp
qed

lemma zero_frames_stacked:
  assumes "groups \<noteq> []" "1 \<le> h" "1 \<le> w" "\<And>g. g \<in> set groups \<Longrightarrow> length g = l"
  shows "zero_frames (map (stack_channels h w) groups) =
           replicate 3 (replicate h (replicate w (replicate l (Fin 0))))"
proof -
  have "last (map (stack_channels h w) groups) = stack_channels h w (last groups)"
    using assms(1) by (rule last_map)
  moreover have "length (last groups) = l" using assms(1,4) by simp
  ultimately show ?thesis
    by (simp add: zero_frames_def shape3_stack_channels[OF assms(2,3)])
qed

lemma map3_zero_frame:
  "map3 (astype_uint8 und) (replicate h (replicate w (replicate l (Fin 0))))
     = replicate h (replicate w (replicate l (Fin 0)))"
  by (simp add: map3_def astype_uint8_zero)

lemma resize_nearest_cube: "\<forall>v n r. resize_nearest v n = Inr r \<longrightarrow> is_cube n r"
  by (auto simp: resize_nearest_def is_cube_def has_shape_def)

section \<open>Frame count and frame layout of the normal mosaic\<close>

text \<open>
  C2. For a cube-shaped volume of side \<open>n \<ge> 1\<close> and a stride \<open>frameskip \<ge> 1\<close>,
  \<^verbatim>\<open>create_mosaic_normal\<close> returns exactly \<open>\<lceil>n / frameskip\<rceil>\<close> frames: the loop indices are
  \<open>0, frameskip, 2 * frameskip, \<dots>\<close>, all below \<open>n\<close>, and frame \<open>k\<close> is the one built for the
  depth index \<open>k * frameskip\<close>.
\<close>

theorem create_mosaic_normal_frame_count:
  assumes "is_cube n v" and "1 \<le> n" and "1 \<le> frameskip"
  shows "\<exists>frames. create_mosaic_normal v n frameskip = Inr frames
           \<and> int (length frames) = \<lceil>(of_nat n :: rat) / of_nat frameskip\<rceil>
           \<and> range_from 0 n frameskip = map (\<lambda>k. k * frameskip) [0..<length frames]
           \<and> (\<forall>k < length frames.
                 k * frameskip < n \<and> mosaic_frame v n (k * frameskip) = Inr (frames ! k))"
proof -
  have f: "0 < frameskip" using assms(3) by simp
  let ?cnt = "(n + frameskip - 1) div frameskip"
  let ?g = "\<lambda>i. map (\<lambda>r.
            map (\<lambda>c. v ! i ! c ! (n - 1 - r)) [0..<n]
          @ map (\<lambda>c. v ! c ! (n - 1 - i) ! (n - 1 - r)) [0..<n]
          @ map (\<lambda>c. v ! c ! (n - 1 - r) ! (n - 1 - i)) [0..<n]) [0..<n]"
  let ?frames = "map (\<lambda>k. ?g (k * frameskip)) [0..<?cnt]"
  have 1: "create_mosaic_normal v n frameskip = Inr ?frames"
    by (rule create_mosaic_normal_cube[OF assms(1) f])
  have 2: "int (length ?frames) = \<lceil>(of_nat n :: rat) / of_nat frameskip\<rceil>"
    using ceil_div[OF f, of n] by simp
  have 3: "range_from 0 n frameskip = map (\<lambda>k. k * frameskip) [0..<length ?frames]"
    using range_from_map[OF f, of 0 n] by simp
  have 4: "k * frameskip < n \<and> mosaic_frame v n (k * frameskip) = Inr (?frames ! k)"
    if "k < length ?frames" for k
  proof -
    have k: "k < ?cnt" using that by simp
    have l: "k * frameskip < n" by (rule range_index_less[OF f k])
    show ?thesis using l mosaic_frame_entries[OF assms(1) l] k by simp
  qed
  show ?thesis using 1 2 3 4 by blast
qed

theorem create_mosaic_normal_frame_count_witness:
  "is_cube 3 [[[1, 2, 3], [4, 5, 6], [7, 8, 9]],
              [[10, 11, 12], [13, 14, 15], [16, 17, 18]],
              [[19, 20, 21], [22, 23, 24], [25, 26, 27 :: int]]]
   \<and> (\<exists>frames. create_mosaic_normal
              [[[1, 2, 3], [4, 5, 6], [7, 8, 9]],
               [[10, 11, 12], [13, 14, 15], [16, 17, 18]],
               [[19, 20, 21], [22, 23, 24], [25, 26, 27 :: int]]] 3 2 = Inr frames
         \<and> length frames = 2)"
proof -
  let ?v = "[[[1, 2, 3], [4, 5, 6], [7, 8, 9]],
             [[10, 11, 12], [13, 14, 15], [16, 17, 18]],
             [[19, 20, 21], [22, 23, 24], [25, 26, 27 :: int]]]"
  have c: "is_cube 3 ?v" by (simp add: is_cube_def has_shape_def)
  have "\<lceil>(of_nat 3 :: rat) / of_nat 2\<rceil> = 2" by (simp add: ceiling_unique)
  then show ?thesis using c create_mosaic_normal_frame_count[OF c, of 2] by auto
qed

text \<open>
  C3. For a cube-shaped volume of side \<open>n\<close> and a stride \<open>frameskip \<ge> 1\<close>, frame \<open>k\<close> of the
  normal mosaic belongs to the depth index \<open>i = k * frameskip\<close> and is, row by row, the
  concatenation of three \<open>n \<times> n\<close> panels: the slice of axis 0 at \<open>i\<close>, the slice of axis 1 at
  \<open>n - 1 - i\<close> and the slice of axis 2 at \<open>n - 1 - i\<close>, each with its rows reversed and then
  transposed, so that entry \<open>(r, c)\<close> of a panel is entry \<open>(c, n - 1 - r)\<close> of its slice.
\<close>

theorem create_mosaic_normal_frame_layout:
  assumes "is_cube n v" and "1 \<le> frameskip"
    and "create_mosaic_normal v n frameskip = Inr frames" and "k < length frames"
  shows "k * frameskip < n \<and>
         frames ! k =
           map (\<lambda>r. map (\<lambda>c. v ! (k * frameskip) ! c ! (n - 1 - r)) [0..<n]
                  @ map (\<lambda>c. v ! c ! (n - 1 - k * frameskip) ! (n - 1 - r)) [0..<n]
                  @ map (\<lambda>c. v ! c ! (n - 1 - r) ! (n - 1 - k * frameskip)) [0..<n]) [0..<n]"
proof -
  have f: "0 < frameskip" using assms(2) by simp
  let ?cnt = "(n + frameskip - 1) div frameskip"
  have e: "Inr frames = create_mosaic_normal v n frameskip" using assms(3) by simp
  have k: "k < ?cnt" using assms(4) e unfolding create_mosaic_normal_cube[OF assms(1) f] by auto
  have l: "k * frameskip < n" by (rule range_index_less[OF f k])
  show ?thesis
    using l k e unfolding create_mosaic_normal_cube[OF assms(1) f] by auto
qed

theorem create_mosaic_normal_frame_layout_witness:
  "is_cube 2 [[[1, 2], [3, 4]], [[5, 6], [7, 8 :: int]]]
   \<and> create_mosaic_normal [[[1, 2], [3, 4]], [[5, 6], [7, 8 :: int]]] 2 1
       = Inr [[[2, 4, 4, 8, 4, 8], [1, 3, 3, 7, 2, 6]], [[6, 8, 2, 6, 3, 7], [5, 7, 1, 5, 1, 5]]]
   \<and> [[[2, 4, 4, 8, 4, 8], [1, 3, 3, 7, 2, 6]], [[6, 8, 2, 6, 3, 7], [5, 7, 1, 5, 1, 5 :: int]]] ! 1
       = map (\<lambda>r. map (\<lambda>c. [[[1, 2], [3, 4]], [[5, 6], [7, 8]]] ! 1 ! c ! (1 - r)) [0..<2]
                @ map (\<lambda>c. [[[1, 2], [3, 4]], [[5, 6], [7, 8]]] ! c ! 0 ! (1 - r)) [0..<2]
                @ map (\<lambda>c. [[[1, 2], [3, 4]], [[5, 6], [7, 8]]] ! c ! (1 - r) ! 0) [0..<2]) [0..<2]"
proof -
  let ?v = "[[[1, 2], [3, 4]], [[5, 6], [7, 8 :: int]]]"
  let ?fs = "[[[2, 4, 4, 8, 4, 8], [1, 3, 3, 7, 2, 6]], [[6, 8, 2, 6, 3, 7], [5, 7, 1, 5, 1, 5 :: int]]]"
  have c: "is_cube 2 ?v" by (simp add: is_cube_def has_shape_def)
  have m: "create_mosaic_normal ?v 2 1 = Inr ?fs" by code_simp
  have k: "1 < length ?fs" by simp
  show ?thesis
    using c m create_mosaic_normal_frame_layout[OF c _ m k] by simp
qed

section \<open>Placement of the content in the cube\<close>



section \<open>The two padding paths\<close>




section \<open>A volume whose maximum is zero\<close>

text \<open>
  C6, as stated: for a volume whose maximum intensity is 0, both normalizers fail with a
  DataError. On the one-voxel volume that holds 0 neither does: \<open>255 / 0\<close> is computed as an
  infinity, the product with the voxel is NaN, and the cube holding the 8-bit conversion of
  NaN is returned with side 1.
\<close>

theorem zero_volume_data_error_counterexample:
  "load_and_prepare_image und_zero resize_nearest [[[0]]] 1 \<noteq> Inl DataError
   \<and> load_and_prepare_image_isotropic und_zero resize_nearest [[[0]]] 1 \<noteq> Inl DataError
   \<and> load_and_prepare_image und_zero resize_nearest [[[0]]] 1 = Inr ([[[und_zero NaN]]], 1)
   \<and> load_and_prepare_image_isotropic und_zero resize_nearest [[[0]]] 1 = Inr ([[[und_zero NaN]]], 1)"
  by code_simp

text \<open>
  C6, amended: for every volume with all axes of length at least 1 whose maximum intensity
  is 0, both normalizers with size factor 1 raise nothing and return the cube of side
  \<open>max a b c\<close> in which every entry is the 8-bit conversion of a value that is not finite: of
  NaN where the padded cube holds 0, of the negative infinity where it holds a negative
  value.
\<close>

theorem zero_maximum_returns_without_error:
  assumes "has_shape a b c data" and "1 \<le> a" and "1 \<le> b" and "1 \<le> c"
    and "np_max data = Inr 0"
  shows "\<exists>padded.
           pad_cube_legacy data = Inr padded \<and> pad_cube_isotropic data = Inr padded
         \<and> is_cube (max a (max b c)) padded
         \<and> load_and_prepare_image und resize data 1 =
             Inr (map3 (\<lambda>v. und (if v = 0 then NaN else NInf)) padded, max a (max b c))
         \<and> load_and_prepare_image_isotropic und resize data 1 =
             Inr (map3 (\<lambda>v. und (if v = 0 then NaN else NInf)) padded, max a (max b c))"
proof -
  let ?n = "max a (max b c)"
  let ?P = "assign1 ((?n - a) div 2) (assign1 ((?n - b) div 2)
              (assign1 ((?n - c) div 2) (\<lambda>x y. y))) (np_zeros3 ?n) data"
  have le: "a \<le> ?n" "b \<le> ?n" "c \<le> ?n" by simp_all
  note f = half_pad_fits[OF le(1)] half_pad_fits[OF le(2)] half_pad_fits[OF le(3)]
  have pi: "pad_cube_isotropic data = Inr ?P" by (rule pad_cube_isotropic_eq[OF assms(1-4)])
  have pl: "pad_cube_legacy data = Inr ?P" using pi by (simp only: pad_cube_legacy_eq_isotropic)
  have cube: "is_cube ?n ?P" by (rule pad_block(1)[OF assms(1) f])
  have mx: "np_max ?P = Inr 0" by (rule np_max_padded[OF assms(1) f assms(5) order_refl])
  note sc = scale_to_uint8_zero[OF mx, of und]
  have l1: "load_and_prepare_image und resize data 1 =
             Inr (map3 (\<lambda>v. und (if v = 0 then NaN else NInf)) ?P, ?n)"
    by (rule load_legacy_size_one[OF assms(1-4) pl sc])
  have l2: "load_and_prepare_image_isotropic und resize data 1 =
             Inr (map3 (\<lambda>v. und (if v = 0 then NaN else NInf)) ?P, ?n)"
    by (rule load_isotropic_size_one[OF assms(1-4) pi sc])
  show ?thesis
    apply (rule exI[of _ ?P])
    apply (rule conjI[OF pl], rule conjI[OF pi], rule conjI[OF cube], rule conjI[OF l1], rule l2)
    done
qed

theorem zero_maximum_returns_without_error_witness:
  "has_shape 1 1 2 [[[0, - 1 :: rat]]] \<and> np_max [[[0, - 1]]] = Inr 0
   \<and> (\<exists>padded.
          pad_cube_legacy [[[0, - 1]]] = Inr padded \<and> pad_cube_isotropic [[[0, - 1]]] = Inr padded
        \<and> is_cube (max 1 (max 1 2)) padded
        \<and> load_and_prepare_image und_zero resize_nearest [[[0, - 1]]] 1 =
            Inr (map3 (\<lambda>v. und_zero (if v = 0 then NaN else NInf)) padded, max 1 (max 1 2))
        \<and> load_and_prepare_image_isotropic und_zero resize_nearest [[[0, - 1]]] 1 =
            Inr (map3 (\<lambda>v. und_zero (if v = 0 then NaN else NInf)) padded, max 1 (max 1 2)))"
proof -
  have h: "has_shape 1 1 2 [[[0, - 1 :: rat]]]" by (simp add: has_shape_def)
  have m: "np_max [[[0, - 1]]] = Inr 0" by (simp add: np_max_def)
  show ?thesis
    by (intro conjI h m zero_maximum_returns_without_error[OF h _ _ _ m]) simp_all
qed

section \<open>The returned array is a cube of the returned side\<close>

text \<open>
  C10. Whenever a loader returns a pair \<open>(array, maximum)\<close> for a volume with all axes of
  length at least 1, with any size factor, the array is a cube whose side on every axis is
  the returned maximum. The resize of \<^verbatim>\<open>skimage\<close> is a parameter, assumed to return an array
  of the shape it is asked for.
\<close>

theorem loaders_return_cube:
  assumes "\<forall>v n r. resize v n = Inr r \<longrightarrow> is_cube n r"
    and "has_shape a b c data" and "1 \<le> a" and "1 \<le> b" and "1 \<le> c"
  shows "(load_and_prepare_image und resize data s = Inr (arr, m) \<longrightarrow> is_cube m arr)
       \<and> (load_and_prepare_image_isotropic und resize data s = Inr (arr', m') \<longrightarrow> is_cube m' arr')"
  using load_legacy_cube[OF assms] load_isotropic_cube[OF assms] by blast

theorem loaders_return_cube_witness:
  "has_shape 2 1 5 [[[1, 2, 3, 4, 5]], [[6, 7, 8, 9, 10 :: rat]]]
   \<and> load_and_prepare_image und_zero resize_nearest [[[1, 2, 3, 4, 5]], [[6, 7, 8, 9, 10]]] (1 / 2)
       = Inr ([[[Fin 0, Fin 0], [Fin 0, Fin 0]], [[Fin 0, Fin 0], [Fin 153, Fin 204]]], 2)
   \<and> is_cube 2 [[[Fin 0, Fin 0], [Fin 0, Fin 0]], [[Fin 0, Fin 0], [Fin 153, Fin 204]]]
   \<and> load_and_prepare_image_isotropic und_zero resize_nearest
         [[[1, 2, 3, 4, 5]], [[6, 7, 8, 9, 10]]] (1 / 2)
       = Inr ([[[Fin 0, Fin 0], [Fin 0, Fin 0]], [[Fin 0, Fin 0], [Fin 153, Fin 204]]], 2)"
proof -
  let ?d = "[[[1, 2, 3, 4, 5]], [[6, 7, 8, 9, 10 :: rat]]]"
  let ?r = "[[[Fin 0, Fin 0], [Fin 0, Fin 0]], [[Fin 0, Fin 0], [Fin 153, Fin 204]]]"
  have c: "\<forall>v n r. resize_nearest v n = Inr r \<longrightarrow> is_cube n r" by (rule resize_nearest_cube)
  have h: "has_shape 2 1 5 ?d" by (simp add: has_shape_def)
  have l1: "load_and_prepare_image und_zero resize_nearest ?d (1 / 2) = Inr (?r, 2)" by code_simp
  have l2: "load_and_prepare_image_isotropic und_zero resize_nearest ?d (1 / 2) = Inr (?r, 2)"
    by code_simp
  have "is_cube 2 ?r"
    using loaders_return_cube[OF c h, of und_zero "1 / 2" ?r 2 ?r 2] l1 by simp
  then show ?thesis using h l1 l2 by simp
qed

section \<open>The depth mosaic\<close>

text \<open>
  With a stride of 1 and a cube of side at least 4, the depth mosaic has as many frames as
  the normal mosaic, and its last three frames are zero.
\<close>

lemma create_mosaic_depth_frameskip_one:
  assumes c: "is_cube n v" and n: "4 \<le> n"
  shows "\<exists>F D. create_mosaic_normal v n 1 = Inr F
             \<and> create_mosaic_depth und v n 1 = Inr D
             \<and> length D = length F
             \<and> drop (length D - 3) D = replicate 3 (replicate n (replicate (3 * n) (replicate 3 (Fin 0))))"
proof -
  have n1: "1 \<le> n" using n by simp
  obtain F where F: "create_mosaic_normal v n 1 = Inr F" "length F = n"
    "\<forall>i<n. frame_shape (F ! i) = (n, 3 * n) \<and> (\<forall>r \<in> set (F ! i). length r = 3 * n)"
    using frames_of_cube[OF c n1] by blast
  let ?groups = "map (\<lambda>i. take 3 (drop i F)) [0..<n - 3]"
  let ?out = "map (stack_channels n (3 * n)) ?groups"
  let ?z = "replicate n (replicate (3 * n) (replicate 3 (Fin 0)))"
  have ne: "?groups \<noteq> []" using n by simp
  have rect: "length g = 3 \<and> (\<forall>f \<in> set g. frame_shape f = (n, 3 * n) \<and> (\<forall>r \<in> set f. length r = 3 * n))"
    if gin: "g \<in> set ?groups" for g
  proof -
    obtain i where i: "i < n - 3" "g = take 3 (drop i F)" using gin by auto
    have l: "length g = 3" using i F(2) by simp
    have "frame_shape f = (n, 3 * n) \<and> (\<forall>r \<in> set f. length r = 3 * n)" if fin: "f \<in> set g" for f
    proof -
      have "f \<in> set F" using fin i(2) by (meson in_set_dropD in_set_takeD)
      then obtain j where "j < n" "f = F ! j" using F(2) by (auto simp: in_set_conv_nth)
      then show ?thesis using F(3) by simp
    qed
    then show ?thesis using l by blast
  qed
  have roll: "roll_groups ?groups = Inr ?out"
    using ne _ rect by (rule roll_groups_rect) simp
  have w: "1 \<le> 3 * n" using n by simp
  have gl: "length g = 3" if "g \<in> set ?groups" for g using rect[OF that] by simp
  have z: "zero_frames ?out = replicate 3 ?z"
    using ne n1 w gl by (rule zero_frames_stacked)
  let ?D = "map (map3 (astype_uint8 und)) ?out @ replicate 3 ?z"
  have d: "create_mosaic_depth und v n 1 = Inr ?D"
    unfolding create_mosaic_depth_def F(1) ebind_Inr Let_def roll z
    by (simp add: map3_zero_frame)
  have len: "length ?D = length F" using n F(2) by simp
  have "length ?D - 3 = length (map (map3 (astype_uint8 und)) ?out)" by simp
  then have last3: "drop (length ?D - 3) ?D = replicate 3 ?z" by (simp only: drop_append) simp
  show ?thesis
    apply (rule exI[of _ F], rule exI[of _ ?D])
    apply (rule conjI[OF F(1)], rule conjI[OF d], rule conjI[OF len], rule last3)
    done
qed

text \<open>
  C4 fails for a stride above 1. \<^verbatim>\<open>create_mosaic_depth\<close> groups the frames with
  \<^verbatim>\<open>range(maximum - 3)\<close>, the count of a stride of 1, whatever \<^verbatim>\<open>frameskip\<close> is. On a cube of
  side 4 with \<^verbatim>\<open>frameskip = 2\<close> the normal mosaic has 2 frames and the depth mosaic 4; on a
  cube of side 5 with \<^verbatim>\<open>frameskip = 2\<close> the groups differ in length and numpy raises. The
  cube of side 4 is what the loader makes of a volume of ones, so \<^verbatim>\<open>write_gif_depth\<close> on that
  volume hands 4 frames to the encoder.
\<close>

theorem create_mosaic_depth_frameskip_two:
  "map_sum id length
     (create_mosaic_normal (replicate 4 (replicate 4 (replicate 4 (Fin 255)))) 4 2) = Inr 2
   \<and> map_sum id length
     (create_mosaic_depth und_zero (replicate 4 (replicate 4 (replicate 4 (Fin 255)))) 4 2) = Inr 4
   \<and> create_mosaic_depth und_zero (replicate 5 (replicate 5 (replicate 5 (Fin 255)))) 5 2
       = Inl ValueError
   \<and> load_and_prepare_image und_zero resize_nearest (replicate 4 (replicate 4 (replicate 4 1))) 1
       = Inr (replicate 4 (replicate 4 (replicate 4 (Fin 255))), 4)
   \<and> map_sum id length
     (write_gif_depth und_zero resize_nearest (replicate 4 (replicate 4 (replicate 4 1))) 1 2)
       = Inr 4"
  by code_simp

section \<open>The RGB mosaic\<close>

text \<open>
  C9, as stated: the RGB composition appends exactly one all-zero frame to the sequence of
  three-channel frames. On three one-voxel cubes it appends three.
\<close>

theorem rgb_single_zero_frame_counterexample:
  "rgb_combined [[[Fin 1]]] [[[Fin 2]]] [[[Fin 3]]] 1 1
     = Inr [[[[Fin 1, Fin 2, Fin 3], [Fin 1, Fin 2, Fin 3], [Fin 1, Fin 2, Fin 3]]]]
   \<and> create_mosaic_RGB [[[Fin 1]]] [[[Fin 2]]] [[[Fin 3]]] 1 1
     \<noteq> Inr ([[[[Fin 1, Fin 2, Fin 3], [Fin 1, Fin 2, Fin 3], [Fin 1, Fin 2, Fin 3]]]]
            @ [[[[Fin 0, Fin 0, Fin 0], [Fin 0, Fin 0, Fin 0], [Fin 0, Fin 0, Fin 0]]]])
   \<and> create_mosaic_RGB [[[Fin 1]]] [[[Fin 2]]] [[[Fin 3]]] 1 1
     = Inr ([[[[Fin 1, Fin 2, Fin 3], [Fin 1, Fin 2, Fin 3], [Fin 1, Fin 2, Fin 3]]]]
            @ replicate 3 [[[Fin 0, Fin 0, Fin 0], [Fin 0, Fin 0, Fin 0], [Fin 0, Fin 0, Fin 0]]])"
  by code_simp

text \<open>
  C9, amended: for three cubes of the same side \<open>n \<ge> 1\<close> and a stride of 1, the RGB
  composition is the sequence of the \<open>n\<close> three-channel frames, frame \<open>i\<close> holding frame \<open>i\<close> of
  each normal mosaic as its channels, followed by exactly three all-zero frames of the same
  shape.
\<close>

theorem create_mosaic_RGB_three_zero_frames:
  assumes "is_cube n out_img1" and "is_cube n out_img2" and "is_cube n out_img3" and "1 \<le> n"
  shows "\<exists>f1 f2 f3.
           create_mosaic_normal out_img1 n 1 = Inr f1
         \<and> create_mosaic_normal out_img2 n 1 = Inr f2
         \<and> create_mosaic_normal out_img3 n 1 = Inr f3
         \<and> rgb_combined out_img1 out_img2 out_img3 n 1 =
             Inr (map (\<lambda>i. stack_channels n (3 * n) [f1 ! i, f2 ! i, f3 ! i]) [0..<n])
         \<and> create_mosaic_RGB out_img1 out_img2 out_img3 n 1 =
             Inr (map (\<lambda>i. stack_channels n (3 * n) [f1 ! i, f2 ! i, f3 ! i]) [0..<n]
                  @ replicate 3 (replicate n (replicate (3 * n) (replicate 3 (Fin 0)))))"
proof -
  obtain f1 where f1: "create_mosaic_normal out_img1 n 1 = Inr f1" "length f1 = n"
    "\<forall>i<n. frame_shape (f1 ! i) = (n, 3 * n) \<and> (\<forall>r \<in> set (f1 ! i). length r = 3 * n)"
    using frames_of_cube[OF assms(1,4)] by blast
  obtain f2 where f2: "create_mosaic_normal out_img2 n 1 = Inr f2" "length f2 = n"
    "\<forall>i<n. frame_shape (f2 ! i) = (n, 3 * n) \<and> (\<forall>r \<in> set (f2 ! i). length r = 3 * n)"
    using frames_of_cube[OF assms(2,4)] by blast
  obtain f3 where f3: "create_mosaic_normal out_img3 n 1 = Inr f3" "length f3 = n"
    "\<forall>i<n. frame_shape (f3 ! i) = (n, 3 * n) \<and> (\<forall>r \<in> set (f3 ! i). length r = 3 * n)"
    using frames_of_cube[OF assms(3,4)] by blast
  let ?grp = "\<lambda>i. [f1 ! i, f2 ! i, f3 ! i]"
  let ?groups = "map ?grp [0..<n]"
  let ?out = "map (\<lambda>i. stack_channels n (3 * n) (?grp i)) [0..<n]"
  have em: "emap (\<lambda>i. ebind (py_get f1 i) (\<lambda>f1.
                       ebind (py_get f2 i) (\<lambda>f2.
                       ebind (py_get f3 i) (\<lambda>f3. Inr [f1, f2, f3])))) [0..<n] = Inr ?groups"
    by (rule emap_Inr) (simp add: py_get_def ebind_def f1(2) f2(2) f3(2))
  have ne: "?groups \<noteq> []" using assms(4) by simp
  have rect: "length g = 3 \<and> (\<forall>f \<in> set g. frame_shape f = (n, 3 * n) \<and> (\<forall>r \<in> set f. length r = 3 * n))"
    if gin: "g \<in> set ?groups" for g
  proof -
    obtain i where i: "i < n" "g = ?grp i" using gin by auto
    show ?thesis using f1(3) f2(3) f3(3) i by simp
  qed
  have roll: "roll_groups ?groups = Inr (map (stack_channels n (3 * n)) ?groups)"
    using ne _ rect by (rule roll_groups_rect) simp
  have mm: "map (stack_channels n (3 * n)) ?groups = ?out" by simp
  have comb: "rgb_combined out_img1 out_img2 out_img3 n 1 = Inr ?out"
    unfolding rgb_combined_def f1(1) f2(1) f3(1) ebind_Inr em roll mm ..
  have w: "1 \<le> 3 * n" using assms(4) by simp
  have gl: "length g = 3" if "g \<in> set ?groups" for g using rect[OF that] by simp
  have z: "zero_frames ?out = replicate 3 (replicate n (replicate (3 * n) (replicate 3 (Fin 0))))"
    unfolding mm[symmetric] using ne assms(4) w gl by (rule zero_frames_stacked)
  have rgb: "create_mosaic_RGB out_img1 out_img2 out_img3 n 1 =
               Inr (?out @ replicate 3 (replicate n (replicate (3 * n) (replicate 3 (Fin 0)))))"
    unfolding create_mosaic_RGB_def comb ebind_Inr z ..
  show ?thesis
    apply (rule exI[of _ f1], rule exI[of _ f2], rule exI[of _ f3])
    apply (rule conjI[OF f1(1)], rule conjI[OF f2(1)], rule conjI[OF f3(1)])
    apply (rule conjI[OF comb], rule rgb)
    done
qed

theorem create_mosaic_RGB_three_zero_frames_witness:
  "is_cube 1 [[[Fin 1]]] \<and> is_cube 1 [[[Fin 2]]] \<and> is_cube 1 [[[Fin 3]]]
   \<and> create_mosaic_RGB [[[Fin 1]]] [[[Fin 2]]] [[[Fin 3]]] 1 1
     = Inr [[[[Fin 1, Fin 2, Fin 3], [Fin 1, Fin 2, Fin 3], [Fin 1, Fin 2, Fin 3]]],
            [[[Fin 0, Fin 0, Fin 0], [Fin 0, Fin 0, Fin 0], [Fin 0, Fin 0, Fin 0]]],
            [[[Fin 0, Fin 0, Fin 0], [Fin 0, Fin 0, Fin 0], [Fin 0, Fin 0, Fin 0]]],
            [[[Fin 0, Fin 0, Fin 0], [Fin 0, Fin 0, Fin 0], [Fin 0, Fin 0, Fin 0]]]]"
proof -
  have c: "is_cube 1 [[[Fin 1]]]" "is_cube 1 [[[Fin 2]]]" "is_cube 1 [[[Fin 3]]]"
    by (simp_all add: is_cube_def has_shape_def)
  have m: "create_mosaic_normal [[[Fin 1]]] 1 1 = Inr [[[Fin 1, Fin 1, Fin 1]]]"
    "create_mosaic_normal [[[Fin 2]]] 1 1 = Inr [[[Fin 2, Fin 2, Fin 2]]]"
    "create_mosaic_normal [[[Fin 3]]] 1 1 = Inr [[[Fin 3, Fin 3, Fin 3]]]"
    by code_simp+
  obtain f1 f2 f3 where f: "create_mosaic_normal [[[Fin 1]]] 1 1 = Inr f1"
    "create_mosaic_normal [[[Fin 2]]] 1 1 = Inr f2" "create_mosaic_normal [[[Fin 3]]] 1 1 = Inr f3"
    and r: "create_mosaic_RGB [[[Fin 1]]] [[[Fin 2]]] [[[Fin 3]]] 1 1 =
             Inr (map (\<lambda>i. stack_channels 1 (3 * 1) [f1 ! i, f2 ! i, f3 ! i]) [0..<1]
                  @ replicate 3 (replicate 1 (replicate (3 * 1) (replicate 3 (Fin 0)))))"
    using create_mosaic_RGB_three_zero_frames[OF c order_refl] by blast
  have "f1 = [[[Fin 1, Fin 1, Fin 1]]]" "f2 = [[[Fin 2, Fin 2, Fin 2]]]" "f3 = [[[Fin 3, Fin 3, Fin 3]]]"
    using f m by simp_all
  then show ?thesis using c r by (simp add: stack_channels_def numeral_3_eq_3)
qed

text \<open>
  C7 fails on the code: when the three cubes differ in side, \<^verbatim>\<open>write_gif_rgb\<close> does not
  raise a DimensionMismatchError. The test of line 298 has no \<^verbatim>\<open>else\<close>, \<^verbatim>\<open>maximum\<close> stays
  unbound, and reading it on line 302 raises UnboundLocalError. Here the volumes have the
  sides 1, 1 and 2.
\<close>

theorem write_gif_rgb_mismatch:
  "write_gif_rgb und_zero resize_nearest [[[1]]] [[[1]]] [[[1, 2]]] 1 1 = Inl UnboundLocalError"
  by code_simp

section \<open>The colormap\<close>

text \<open>
  C8, as stated: a colormap name that is not registered makes the colormap application fail
  with a ConfigError. The code passes on the exception of \<^verbatim>\<open>get_cmap\<close>, a ValueError.
\<close>

theorem unknown_colormap_config_error_counterexample:
  "write_gif_pseudocolor und_zero resize_nearest
     [''hot'' \<mapsto> (\<lambda>x. [x, Fin 0, Fin 0, Fin 1])] [[[1]]] 1 ''not_a_colormap'' 1 = Inl ValueError
   \<and> write_gif_pseudocolor und_zero resize_nearest
     [''hot'' \<mapsto> (\<lambda>x. [x, Fin 0, Fin 0, Fin 1])] [[[1]]] 1 ''not_a_colormap'' 1 \<noteq> Inl ConfigError"
  by code_simp

text \<open>
  C8, amended: for every volume that \<^verbatim>\<open>load_and_prepare_image\<close> loads, every stride
  \<open>frameskip \<ge> 1\<close> and every colormap name that is not registered, \<^verbatim>\<open>write_gif_pseudocolor\<close>
  fails with the ValueError that \<^verbatim>\<open>get_cmap\<close> raises.
\<close>

theorem unknown_colormap_raises_value_error:
  assumes "\<forall>v n r. resize v n = Inr r \<longrightarrow> is_cube n r"
    and "has_shape a b c data" and "1 \<le> a" and "1 \<le> b" and "1 \<le> c"
    and "load_and_prepare_image und resize data s = Inr (out_img, maximum)"
    and "1 \<le> frameskip"
    and "registry colormap = None"
  shows "write_gif_pseudocolor und resize registry data s colormap frameskip = Inl ValueError"
proof -
  have cube: "is_cube maximum out_img" by (rule load_legacy_cube[OF assms(1-6)])
  have f: "0 < frameskip" using assms(7) by simp
  show ?thesis
    by (simp add: write_gif_pseudocolor_def assms(6) ebind_def
          create_mosaic_normal_cube[OF cube f] get_cmap_def assms(8))
qed

theorem unknown_colormap_raises_value_error_witness:
  "has_shape 1 1 2 [[[1, 2 :: rat]]]
   \<and> load_and_prepare_image und_zero resize_nearest [[[1, 2]]] 1
       = Inr ([[[Fin 127, Fin 255], [Fin 0, Fin 0]], [[Fin 0, Fin 0], [Fin 0, Fin 0]]], 2)
   \<and> [''hot'' \<mapsto> (\<lambda>x. [x, Fin 0, Fin 0, Fin 1])] ''not_a_colormap'' = None
   \<and> write_gif_pseudocolor und_zero resize_nearest [''hot'' \<mapsto> (\<lambda>x. [x, Fin 0, Fin 0, Fin 1])]
        [[[1, 2]]] 1 ''not_a_colormap'' 3 = Inl ValueError"
proof -
  have c: "\<forall>v n r. resize_nearest v n = Inr r \<longrightarrow> is_cube n r"
    by (rule resize_nearest_cube)
  have h: "has_shape 1 1 2 [[[1, 2 :: rat]]]" by (simp add: has_shape_def)
  have l: "load_and_prepare_image und_zero resize_nearest [[[1, 2]]] 1
       = Inr ([[[Fin 127, Fin 255], [Fin 0, Fin 0]], [[Fin 0, Fin 0], [Fin 0, Fin 0]]], 2)"
    by code_simp
  have r: "[''hot'' \<mapsto> (\<lambda>x. [x, Fin 0, Fin 0, Fin 1])] ''not_a_colormap'' = None" by simp
  show ?thesis
    using h l r
      unknown_colormap_raises_value_error
        [where registry = "[''hot'' \<mapsto> (\<lambda>x. [x, Fin 0, Fin 0, Fin 1])]"
           and colormap = "''not_a_colormap''" and frameskip = 3, OF c h _ _ _ l _ r]
    by simp
qed

end
